theory Spec2Isabelle
  imports Complex_Main
begin

section \<open>JavaScript values\<close>

text \<open>
  The server handles JSON documents: request bodies, upstream replies and its own
  responses. A number is an IEEE double; the model keeps its value (a rational when it
  is finite, both zeros being \<open>Fin 0\<close>) and the three special values. No arithmetic is
  done on prices or token counts, so no rounding is modelled. Text is a \<open>string\<close> of
  UTF-8 bytes: an ASCII character is one \<open>char\<close>, any other character is a run of
  bytes from 128 up. An object is the list of its own properties, each name once.
\<close>

datatype jsnum = NaN | PosInf | NegInf | Fin rat

datatype jsval =
    Undefined
  | Null
  | Bool bool
  | Num jsnum
  | Str string
  | Arr "jsval list"
  | Obj "(string \<times> jsval) list"

text \<open>
  An operation that may throw returns \<open>Inl msg\<close>, where \<open>msg\<close> is what \<open>String(e)\<close>
  gives for the thrown value, or \<open>Inr v\<close>.
\<close>

type_synonym 'a outcome = "string + 'a"

text \<open>\<open>!v\<close> is true for exactly these values.\<close>

fun falsy :: "jsval \<Rightarrow> bool" where
  "falsy Undefined = True"
| "falsy Null = True"
| "falsy (Bool b) = (\<not> b)"
| "falsy (Num NaN) = True"
| "falsy (Num (Fin x)) = (x = 0)"
| "falsy (Num _) = False"
| "falsy (Str s) = (s = [])"
| "falsy (Arr _) = False"
| "falsy (Obj _) = False"

text \<open>\<open>a || b\<close> and \<open>a ?? b\<close>.\<close>

definition or_else :: "jsval \<Rightarrow> jsval \<Rightarrow> jsval" where
  "or_else a b = (if falsy a then b else a)"

definition nullish :: "jsval \<Rightarrow> bool" where
  "nullish v = (v = Undefined \<or> v = Null)"

definition coalesce :: "jsval \<Rightarrow> jsval \<Rightarrow> jsval" where
  "coalesce a b = (if nullish a then b else a)"

text \<open>
  \<open>v.k\<close> for the property names the server reads (\<open>prompt\<close>, \<open>model\<close>, \<open>choices\<close>,
  \<open>message\<close>, \<open>content\<close>, \<open>usage\<close>, \<open>total_tokens\<close>, \<open>price\<close>): none of them is a member of
  a built-in prototype, so only an object's own properties answer. Reading a property of
  \<open>null\<close> or \<open>undefined\<close> throws a TypeError.
\<close>

definition type_error :: "string \<Rightarrow> string \<Rightarrow> string" where
  "type_error what k =
     ''TypeError: Cannot read properties of '' @ what @ '' (reading '' @ [CHR 0x27] @ k @ [CHR 0x27] @ '')''"

fun get_prop :: "jsval \<Rightarrow> string \<Rightarrow> jsval outcome" where
  "get_prop Undefined k = Inl (type_error ''undefined'' k)"
| "get_prop Null k = Inl (type_error ''null'' k)"
| "get_prop (Obj kvs) k = Inr (case map_of kvs k of Some v \<Rightarrow> v | None \<Rightarrow> Undefined)"
| "get_prop _ k = Inr Undefined"

text \<open>\<open>v?.k\<close>: \<open>undefined\<close> when \<open>v\<close> is nullish, and never throws.\<close>

fun opt_prop :: "jsval \<Rightarrow> string \<Rightarrow> jsval" where
  "opt_prop (Obj kvs) k = (case map_of kvs k of Some v \<Rightarrow> v | None \<Rightarrow> Undefined)"
| "opt_prop _ k = Undefined"

text \<open>
  \<open>v?.[0]\<close>: the first element of an array, the first character of a string (its first
  byte here: the server only reads properties of the result, and a string has none of
  them), the property \<open>"0"\<close> of an object.
\<close>

fun opt_index0 :: "jsval \<Rightarrow> jsval" where
  "opt_index0 (Arr (x # xs)) = x"
| "opt_index0 (Str (c # cs)) = Str [c]"
| "opt_index0 (Obj kvs) = (case map_of kvs ''0'' of Some v \<Rightarrow> v | None \<Rightarrow> Undefined)"
| "opt_index0 _ = Undefined"

section \<open>Text\<close>

definition lower_letters :: string where
  "lower_letters = ''abcdefghijklmnopqrstuvwxyz''"

definition upper_letters :: string where
  "upper_letters = ''ABCDEFGHIJKLMNOPQRSTUVWXYZ''"

text \<open>
  \<open>toUpperCase\<close> on ASCII text, which is what the server applies it to: the bytes of
  other characters are kept.
\<close>

definition upper_char :: "char \<Rightarrow> char" where
  "upper_char c = (case map_of (zip lower_letters upper_letters) c of Some u \<Rightarrow> u | None \<Rightarrow> c)"

definition toUpperCase :: "string \<Rightarrow> string" where
  "toUpperCase s = map upper_char s"

text \<open>\<open>xs.join(sep)\<close> on an array of strings.\<close>

fun join :: "string \<Rightarrow> string list \<Rightarrow> string" where
  "join sep [] = []"
| "join sep [x] = x"
| "join sep (x # y # ys) = x @ sep @ join sep (y # ys)"

section \<open>The runtime and the network\<close>

text \<open>
  The conversions of the JavaScript runtime that the server relies on and that are not
  unfolded here are parameters of the model: every theorem holds for every runtime.
  \<open>JSON_parse\<close> is \<open>JSON.parse\<close> on text; \<open>StringToNumber\<close> and \<open>NumberToString\<close> are
  consulted only outside the cases written out below; \<open>ObjectToNumber\<close> and
  \<open>ObjectToString\<close> convert arrays and objects, which may throw.
\<close>

record runtime =
  JSON_parse :: "string \<Rightarrow> jsval outcome"
  StringToNumber :: "string \<Rightarrow> jsnum"
  ObjectToNumber :: "jsval \<Rightarrow> jsnum outcome"
  ObjectToString :: "jsval \<Rightarrow> string outcome"
  NumberToString :: "jsnum \<Rightarrow> string"

definition digit_chars :: string where
  "digit_chars = ''0123456789''"

fun decimal :: "nat \<Rightarrow> string" where
  "decimal n =
     (if n < 10 then [digit_chars ! n] else decimal (n div 10) @ [digit_chars ! (n mod 10)])"

declare decimal.simps [simp del]

text \<open>
  The characters that occur in some numeric string literal: digits, sign, point,
  exponent, the radix prefixes, the hexadecimal digits, the letters of \<open>Infinity\<close> and
  the ASCII white space.
\<close>

definition numeric_literal_chars :: string where
  "numeric_literal_chars =
     ''0123456789+-.eExXoObBaAcCdDfFInity '' @ [CHR 0x09, CHR 0x0A, CHR 0x0B, CHR 0x0C, CHR 0x0D]"

definition certainly_not_numeric :: "string \<Rightarrow> bool" where
  "certainly_not_numeric s =
     list_ex (\<lambda>c. (of_char c :: nat) < 128 \<and> c \<notin> set numeric_literal_chars) s"

definition all_digits :: "string \<Rightarrow> bool" where
  "all_digits s = (s \<noteq> [] \<and> list_all (\<lambda>c. c \<in> set digit_chars) s)"

definition digits_value :: "string \<Rightarrow> nat" where
  "digits_value s = foldl (\<lambda>acc c. 10 * acc + ((of_char c :: nat) - 48)) 0 s"

text \<open>
  \<open>Number(s)\<close> on text: \<open>NaN\<close> when some ASCII character of \<open>s\<close> occurs in no numeric
  literal; the value of a run of at most 15 decimal digits, which a double holds
  exactly; the runtime's answer otherwise.
\<close>

definition string_to_number :: "runtime \<Rightarrow> string \<Rightarrow> jsnum" where
  "string_to_number rt s =
     (if certainly_not_numeric s then NaN
      else if all_digits s \<and> length s \<le> 15 then Fin (of_nat (digits_value s))
      else StringToNumber rt s)"

text \<open>
  \<open>String(n)\<close> on a number: an integer below \<open>2^53\<close> in magnitude is printed in plain
  decimal, digit for digit; the runtime answers for the other finite numbers.
\<close>

definition number_to_string :: "runtime \<Rightarrow> jsnum \<Rightarrow> string" where
  "number_to_string rt n =
     (case n of
        NaN \<Rightarrow> ''NaN''
      | PosInf \<Rightarrow> ''Infinity''
      | NegInf \<Rightarrow> ''-Infinity''
      | Fin x \<Rightarrow>
          if of_int \<lfloor>x\<rfloor> = x \<and> \<bar>x\<bar> < 2 ^ 53
          then (if x < 0 then ''-'' else []) @ decimal (nat \<bar>\<lfloor>x\<rfloor>\<bar>)
          else NumberToString rt n)"

text \<open>
  \<open>n.toFixed(f)\<close>: the integer nearest to \<open>|n| * 10^f\<close> (the larger one on a tie), padded
  with zeros to \<open>f + 1\<close> digits, with the point before the last \<open>f\<close> digits. From
  \<open>10^21\<close> on, and for the special values, it is \<open>String(n)\<close>.
\<close>

definition toFixed :: "runtime \<Rightarrow> jsnum \<Rightarrow> nat \<Rightarrow> string" where
  "toFixed rt n f =
     (case n of
        Fin x \<Rightarrow>
          (if x < 0 then ''-'' else []) @
          (if \<bar>x\<bar> \<ge> 10 ^ 21 then number_to_string rt (Fin \<bar>x\<bar>)
           else
             (let k = nat \<lfloor>\<bar>x\<bar> * 10 ^ f + 1 / 2\<rfloor>;
                  m = decimal k;
                  m' = replicate (f + 1 - length m) (CHR ''0'') @ m;
                  a = take (length m' - f) m';
                  b = drop (length m' - f) m'
              in if f = 0 then a else a @ ''.'' @ b))
      | _ \<Rightarrow> number_to_string rt n)"

text \<open>\<open>Number(v)\<close>.\<close>

fun Number :: "runtime \<Rightarrow> jsval \<Rightarrow> jsnum outcome" where
  "Number rt Undefined = Inr NaN"
| "Number rt Null = Inr (Fin 0)"
| "Number rt (Bool b) = Inr (Fin (if b then 1 else 0))"
| "Number rt (Num n) = Inr n"
| "Number rt (Str s) = Inr (string_to_number rt s)"
| "Number rt v = ObjectToNumber rt v"

text \<open>\<open>String(v)\<close>, as a template literal, \<open>RegExp.prototype.test\<close> or \<open>JSON.parse\<close>
  applies it to an argument.\<close>

fun String :: "runtime \<Rightarrow> jsval \<Rightarrow> string outcome" where
  "String rt Undefined = Inr ''undefined''"
| "String rt Null = Inr ''null''"
| "String rt (Bool b) = Inr (if b then ''true'' else ''false'')"
| "String rt (Num n) = Inr (number_to_string rt n)"
| "String rt (Str s) = Inr s"
| "String rt v = ObjectToString rt v"

text \<open>
  An outbound call. \<open>fetch\<close> either rejects (a transport failure) or resolves to a
  response with its \<open>ok\<close> flag and its body, whose reading can fail in turn. The
  temperature of a completion request is kept as the source writes it.
\<close>

record completion_body =
  model :: jsval
  temperature :: string
  messages :: "(string \<times> jsval) list"

datatype request =
    GET string
  | POST string "(string \<times> string) list" completion_body

datatype response = Response (ok: bool) (body_text: "string outcome")

type_synonym network = "request \<Rightarrow> response outcome"

text \<open>\<open>r.json()\<close>: reads the body and parses it.\<close>

definition json :: "runtime \<Rightarrow> response \<Rightarrow> jsval outcome" where
  "json rt r = (case body_text r of Inl e \<Rightarrow> Inl e | Inr t \<Rightarrow> JSON_parse rt t)"

section \<open>Price lookup\<close>

text \<open>
  \<open>map[symbol]\<close> on the object literal \<open>{ BTC: .., ETH: .., SOL: .. }\<close>: its own three
  properties first, then the members it inherits from \<open>Object.prototype\<close>, which are
  functions, or the prototype object itself for \<open>__proto__\<close>.
\<close>

datatype pair_value = PairText string | InheritedFunction string | InheritedObject

definition pair_map :: "(string \<times> string) list" where
  "pair_map = [(''BTC'', ''BTCUSDT''), (''ETH'', ''ETHUSDT''), (''SOL'', ''SOLUSDT'')]"

definition object_prototype_functions :: "(string \<times> string) list" where
  "object_prototype_functions =
     [(''constructor'', ''Object''),
      (''hasOwnProperty'', ''hasOwnProperty''),
      (''isPrototypeOf'', ''isPrototypeOf''),
      (''propertyIsEnumerable'', ''propertyIsEnumerable''),
      (''toLocaleString'', ''toLocaleString''),
      (''toString'', ''toString''),
      (''valueOf'', ''valueOf''),
      (''__defineGetter__'', ''__defineGetter__''),
      (''__defineSetter__'', ''__defineSetter__''),
      (''__lookupGetter__'', ''__lookupGetter__''),
      (''__lookupSetter__'', ''__lookupSetter__'')]"

definition map_lookup :: "string \<Rightarrow> pair_value option" where
  "map_lookup symbol =
     (case map_of pair_map symbol of
        Some p \<Rightarrow> Some (PairText p)
      | None \<Rightarrow>
         (case map_of object_prototype_functions symbol of
            Some f \<Rightarrow> Some (InheritedFunction f)
          | None \<Rightarrow> if symbol = ''__proto__'' then Some InheritedObject else None))"

text \<open>
  \<open>map[symbol] || `${symbol.toUpperCase()}USDT`\<close>: the three own values are non-empty
  strings and the inherited members are objects, so whatever the lookup finds is truthy.
\<close>

definition pair :: "string \<Rightarrow> pair_value" where
  "pair symbol =
     (case map_lookup symbol of
        Some p \<Rightarrow> p
      | None \<Rightarrow> PairText (toUpperCase symbol @ ''USDT''))"

text \<open>The pair as the template literal of the URL renders it.\<close>

fun pair_text :: "pair_value \<Rightarrow> string" where
  "pair_text (PairText p) = p"
| "pair_text (InheritedFunction f) = ''function '' @ f @ ''() { [native code] }''"
| "pair_text InheritedObject = ''[object Object]''"

definition price_url :: "string \<Rightarrow> string" where
  "price_url symbol =
     ''https://api.binance.com/api/v3/ticker/price?symbol='' @ pair_text (pair symbol)"

text \<open>
  \<open>getUsdPrice\<close>. The whole body is inside \<open>try { .. } catch { return null }\<close>. The
  result is \<open>null\<close> (\<open>None\<close>) or a number; the second component is the list of outbound
  calls made so far, extended by the one call made here.
\<close>

definition price_of_reply :: "runtime \<Rightarrow> response outcome \<Rightarrow> jsnum option" where
  "price_of_reply rt res =
     (case res of
        Inl e \<Rightarrow> None
      | Inr r \<Rightarrow>
          if \<not> ok r then None
          else (case json rt r of
                  Inl e \<Rightarrow> None
                | Inr j \<Rightarrow>
                   (case get_prop j ''price'' of
                      Inl e \<Rightarrow> None
                    | Inr p \<Rightarrow>
                       (case Number rt p of
                          Inl e \<Rightarrow> None
                        | Inr n \<Rightarrow> if falsy (Num n) then None else Some n))))"

definition getUsdPrice ::
  "runtime \<Rightarrow> network \<Rightarrow> string \<Rightarrow> request list \<Rightarrow> jsnum option \<times> request list" where
  "getUsdPrice rt net symbol calls =
     (let req = GET (price_url symbol)
      in (price_of_reply rt (net req), calls @ [req]))"

section \<open>Ticker extraction\<close>

text \<open>
  \<open>new RegExp(`\\b${s}\\b`, 'i')\<close> for a ticker \<open>s\<close>, which consists of letters only: a word
  boundary, the letters of \<open>s\<close>, a word boundary. A word character is an ASCII letter, a
  digit or the underscore. With the flag \<open>i\<close> two characters match when their upper-case
  forms agree; a character outside ASCII never matches an ASCII letter.
\<close>

datatype atom = WordBoundary | Lit char

definition ticker_regex :: "string \<Rightarrow> atom list" where
  "ticker_regex s = [WordBoundary] @ map Lit s @ [WordBoundary]"

definition is_word_char :: "char \<Rightarrow> bool" where
  "is_word_char c = (c \<in> set (lower_letters @ upper_letters @ digit_chars @ ''_''))"

fun is_word_at :: "char option \<Rightarrow> bool" where
  "is_word_at None = False"
| "is_word_at (Some c) = is_word_char c"

fun next_char :: "string \<Rightarrow> char option" where
  "next_char [] = None"
| "next_char (c # cs) = Some c"

text \<open>
  \<open>match_here re prev rest\<close>: the pattern matches at the current position, \<open>prev\<close> being
  the character before it and \<open>rest\<close> the input from it on.
\<close>

fun match_here :: "atom list \<Rightarrow> char option \<Rightarrow> string \<Rightarrow> bool" where
  "match_here [] prev rest = True"
| "match_here (WordBoundary # re) prev rest =
     (is_word_at prev \<noteq> is_word_at (next_char rest) \<and> match_here re prev rest)"
| "match_here (Lit c # re) prev [] = False"
| "match_here (Lit c # re) prev (x # xs) =
     (upper_char x = upper_char c \<and> match_here re (Some x) xs)"

text \<open>The search tries every start position, from left to right.\<close>

fun search :: "atom list \<Rightarrow> char option \<Rightarrow> string \<Rightarrow> bool" where
  "search re prev [] = match_here re prev []"
| "search re prev (x # xs) = (match_here re prev (x # xs) \<or> search re (Some x) xs)"

definition regex_test :: "atom list \<Rightarrow> string \<Rightarrow> bool" where
  "regex_test re s = search re None s"

definition tickers :: "string list" where
  "tickers = [''BTC'', ''ETH'', ''SOL'', ''BNB'', ''AVAX'', ''ARB'', ''OP'', ''SUI'', ''TON'', ''DOGE'']"

text \<open>\<open>tickers.filter(s => new RegExp(..).test(prompt))\<close> on the text of the prompt.\<close>

definition found :: "string \<Rightarrow> string list" where
  "found prompt = filter (\<lambda>s. regex_test (ticker_regex s) prompt) tickers"

section \<open>The ask route\<close>

text \<open>
  \<open>prices[s] = v\<close> on an object with string keys: an existing key keeps its place, a
  new key goes last.
\<close>

fun assign :: "(string \<times> 'v) list \<Rightarrow> string \<Rightarrow> 'v \<Rightarrow> (string \<times> 'v) list" where
  "assign [] k v = [(k, v)]"
| "assign ((k', v') # kvs) k v = (if k' = k then (k, v) # kvs else (k', v') # assign kvs k v)"

text \<open>\<open>for (const s of ..) prices[s] = await getUsdPrice(s)\<close>.\<close>

fun lookup_prices ::
  "runtime \<Rightarrow> network \<Rightarrow> string list \<Rightarrow> (string \<times> jsnum option) list \<Rightarrow> request list
     \<Rightarrow> (string \<times> jsnum option) list \<times> request list" where
  "lookup_prices rt net [] prices calls = (prices, calls)"
| "lookup_prices rt net (s # ss) prices calls =
     (case getUsdPrice rt net s calls of
        (v, calls') \<Rightarrow> lookup_prices rt net ss (assign prices s v) calls')"

text \<open>\<open>`${k} ~ ${v?.toFixed(2) ?? 'n/a'}`\<close>.\<close>

definition price_entry :: "runtime \<Rightarrow> string \<times> jsnum option \<Rightarrow> string" where
  "price_entry rt kv =
     fst kv @ '' ~ '' @ (case snd kv of None \<Rightarrow> ''n/a'' | Some n \<Rightarrow> toFixed rt n 2)"

definition priceLine :: "runtime \<Rightarrow> (string \<times> jsnum option) list \<Rightarrow> string" where
  "priceLine rt prices =
     (if length prices \<noteq> 0
      then ''Approx live prices (USDT): '' @ join '', '' (map (price_entry rt) prices) @ ''.''
      else [])"

definition arrow :: string where
  "arrow = [CHR 0xE2, CHR 0x86, CHR 0x92]"

definition persona :: "string list" where
  "persona =
     [''You are TradeGPT, a concise trading mentor for crypto.'',
      ''Answer in this structure: Definition '' @ arrow @ '' Price context '' @ arrow @
        '' Confirmation '' @ arrow @ '' Risk '' @ arrow @ '' Disclaimer.'',
      ''When quoting price levels, ONLY use levels given by user or live context injected here; otherwise speak in relative terms (recent swing high/low, % move, EMA retest, OB zone).'',
      ''Do not invent dollar amounts.'',
      ''Prefer BTC/ETH/SOL examples when relevant.'']"

definition system :: "runtime \<Rightarrow> (string \<times> jsnum option) list \<Rightarrow> string" where
  "system rt prices = join '' '' (persona @ [priceLine rt prices])"

text \<open>The process environment, read at start-up or per request.\<close>

record env =
  OPENAI_API_KEY :: "string option"
  OPENAI_MODEL_var :: "string option"
  QUIZ_MODE :: "string option"

text \<open>\<open>process.env.X || d\<close>: an unset or empty variable gives the default.\<close>

definition env_or :: "string option \<Rightarrow> string \<Rightarrow> string" where
  "env_or v d = (case v of None \<Rightarrow> d | Some s \<Rightarrow> if s = [] then d else s)"

definition OPENAI_MODEL :: "env \<Rightarrow> string" where
  "OPENAI_MODEL e = env_or (OPENAI_MODEL_var e) ''gpt-4o-mini''"

definition headers :: "env \<Rightarrow> (string \<times> string) list" where
  "headers e =
     [(''Authorization'',
         ''Bearer '' @ (case OPENAI_API_KEY e of None \<Rightarrow> ''undefined'' | Some k \<Rightarrow> k)),
      (''Content-Type'', ''application/json'')]"

definition completions_url :: string where
  "completions_url = ''https://api.openai.com/v1/chat/completions''"

record reply =
  status :: nat
  body :: jsval

definition server_error :: "string \<Rightarrow> reply" where
  "server_error e =
     \<lparr>status = 500, body = Obj [(''error'', Str ''Server error''), (''detail'', Str e)]\<rparr>"

definition ask_request :: "runtime \<Rightarrow> env \<Rightarrow> jsval \<Rightarrow> jsval \<Rightarrow> (string \<times> jsnum option) list \<Rightarrow> request" where
  "ask_request rt e mdl prompt prices =
     POST completions_url (headers e)
       \<lparr>model = mdl, temperature = ''0.2'',
        messages = [(''system'', Str (system rt prices)), (''user'', prompt)]\<rparr>"

text \<open>What the handler does with the reply of the completion call.\<close>

definition ask_reply :: "runtime \<Rightarrow> (string \<times> jsnum option) list \<Rightarrow> response outcome \<Rightarrow> reply" where
  "ask_reply rt prices res =
     (case res of
        Inl e \<Rightarrow> server_error e
      | Inr r \<Rightarrow>
          if \<not> ok r then
            (case body_text r of
               Inl e \<Rightarrow> server_error e
             | Inr t \<Rightarrow> \<lparr>status = 502, body = Obj [(''error'', Str ''OpenAI error''), (''detail'', Str t)]\<rparr>)
          else
            (case json rt r of
               Inl e \<Rightarrow> server_error e
             | Inr data \<Rightarrow>
                (case get_prop data ''choices'' of
                   Inl e \<Rightarrow> server_error e
                 | Inr choices \<Rightarrow>
                    (let reply = or_else (opt_prop (opt_prop (opt_index0 choices) ''message'') ''content'') (Str []);
                         tokens = coalesce (opt_prop (opt_prop data ''usage'') ''total_tokens'') Null
                     in \<lparr>status = 200,
                         body = Obj [(''reply'', reply), (''tokens'', tokens), (''cost'', Null),
                                     (''live'', Obj (map (\<lambda>kv. (fst kv, case snd kv of None \<Rightarrow> Null | Some n \<Rightarrow> Num n)) prices))]\<rparr>))))"

text \<open>\<open>model = OPENAI_MODEL\<close> in the destructuring: the default replaces \<open>undefined\<close> only.\<close>

definition model_of :: "env \<Rightarrow> jsval \<Rightarrow> jsval" where
  "model_of e b = (case opt_prop b ''model'' of Undefined \<Rightarrow> Str (OPENAI_MODEL e) | m \<Rightarrow> m)"

text \<open>
  \<open>POST /api/tradegpt/ask\<close>, on the parsed request body (\<open>undefined\<close> when there is
  none). The result is the response and the outbound calls made, in order.
\<close>

definition ask :: "runtime \<Rightarrow> network \<Rightarrow> env \<Rightarrow> jsval \<Rightarrow> reply \<times> request list" where
  "ask rt net e req_body =
     (let b = or_else req_body (Obj []);
          prompt = opt_prop b ''prompt'';
          mdl = model_of e b
      in if falsy prompt
         then (\<lparr>status = 400, body = Obj [(''error'', Str ''Missing prompt'')]\<rparr>, [])
         else
           (case String rt prompt of
              Inl err \<Rightarrow> (server_error err, [])
            | Inr ptext \<Rightarrow>
               (case lookup_prices rt net (take 3 (found ptext)) [] [] of
                  (prices, calls) \<Rightarrow>
                    (let req = ask_request rt e mdl prompt prices
                     in (ask_reply rt prices (net req), calls @ [req])))))"

section \<open>The quiz route\<close>

definition ellipsis :: string where
  "ellipsis = [CHR 0xE2, CHR 0x80, CHR 0xA6]"

definition bank :: "jsval list" where
  "bank =
     [Obj [(''type'', Str ''image_mcq''), (''img'', Str ''https://i.imgur.com/0Z9z9zG.png''),
           (''q'', Str ''Which candle shows a bullish engulfing?''),
           (''opts'', Arr [Str ''A'', Str ''B'', Str ''C'']), (''a'', Num (Fin 1))],
      Obj [(''type'', Str ''mcq''),
           (''q'', Str (''A valid 1H order block is usually confirmed after'' @ ellipsis)),
           (''opts'', Arr [Str ''a gap down'', Str ''mitigation + retest + BOS'', Str ''RSI > 60'']),
           (''a'', Num (Fin 1))],
      Obj [(''type'', Str ''mcq''), (''q'', Str (''Bullish RSI divergence means'' @ ellipsis)),
           (''opts'', Arr [Str ''Price LL, RSI HL'', Str ''Price HL, RSI LL'', Str ''Price HH, RSI HH'']),
           (''a'', Num (Fin 0))]]"

text \<open>
  The product of two doubles is the double nearest to the exact product, the one with
  the even significand on a tie. \<open>to_double x\<close> is that double for \<open>0 \<le> x < 4\<close>, which is
  where the product of \<open>Math.random()\<close> and the length of the bank lies: the exponent is
  the largest \<open>e\<close> from 1 down to -1022 with \<open>2^e \<le> x\<close> (-1022 also below, for the
  subnormal numbers), and the doubles of that exponent are the multiples of \<open>2^(e - 52)\<close>.
\<close>

definition round_even :: "rat \<Rightarrow> int" where
  "round_even q =
     (let f = \<lfloor>q\<rfloor>; d = q - of_int f
      in if d < 1 / 2 then f else if 1 / 2 < d then f + 1 else if even f then f else f + 1)"

fun exponent_from :: "nat \<Rightarrow> int \<Rightarrow> rat \<Rightarrow> int" where
  "exponent_from 0 e x = e"
| "exponent_from (Suc k) e x = (if 2 powi e \<le> x then e else exponent_from k (e - 1) x)"

definition exponent :: "rat \<Rightarrow> int" where
  "exponent x = exponent_from 1023 1 x"

definition to_double :: "rat \<Rightarrow> rat" where
  "to_double x = (let u = 2 powi (exponent x - 52) in of_int (round_even (x / u)) * u)"

text \<open>
  \<open>bank[Math.floor(Math.random() * bank.length)]\<close>, on the double \<open>rnd\<close> that
  \<open>Math.random()\<close> returns; an index outside the array reads \<open>undefined\<close>.
\<close>

definition pick :: "rat \<Rightarrow> jsval" where
  "pick rnd =
     (let i = \<lfloor>to_double (rnd * of_nat (length bank))\<rfloor>
      in if 0 \<le> i \<and> i < int (length bank) then bank ! nat i else Undefined)"

definition static_quiz :: "rat \<Rightarrow> reply" where
  "static_quiz rnd = \<lparr>status = 200, body = pick rnd\<rparr>"

definition quiz_prompt :: "runtime \<Rightarrow> jsnum \<Rightarrow> string" where
  "quiz_prompt rt elo =
     ''Create a concise trading quiz JSON tuned for ELO '' @ number_to_string rt elo @ ''.'' @
     [CHR 0x0A] @
     ''Fields: {type:'' @ [CHR 0x27] @ ''mcq'' @ [CHR 0x27] @ ''|'' @ [CHR 0x27] @ ''image_mcq'' @
     [CHR 0x27] @ '', img?, q, opts:[A,B,C], a(0-2)}. Keep it short.''"

definition quiz_request :: "runtime \<Rightarrow> env \<Rightarrow> jsnum \<Rightarrow> request" where
  "quiz_request rt e elo =
     POST completions_url (headers e)
       \<lparr>model = Str (OPENAI_MODEL e), temperature = ''0.3'',
        messages = [(''user'', Str (quiz_prompt rt elo))]\<rparr>"

text \<open>
  What the handler does with the reply of the generation call: \<open>Some\<close> response when it
  returns inside the \<open>if\<close>, \<open>None\<close> when control falls through to the bank. \<open>fetch\<close>,
  \<open>r.json()\<close> and \<open>data.choices\<close> are outside the inner \<open>try\<close>; \<open>JSON.parse(txt)\<close>, with
  the conversion of its argument to text, is inside.
\<close>

definition generated :: "runtime \<Rightarrow> response outcome \<Rightarrow> reply option" where
  "generated rt res =
     (case res of
        Inl e \<Rightarrow> Some (server_error e)
      | Inr r \<Rightarrow>
          if ok r then
            (case json rt r of
               Inl e \<Rightarrow> Some (server_error e)
             | Inr data \<Rightarrow>
                (case get_prop data ''choices'' of
                   Inl e \<Rightarrow> Some (server_error e)
                 | Inr choices \<Rightarrow>
                    (let txt = or_else (opt_prop (opt_prop (opt_index0 choices) ''message'') ''content'') (Str ''{}'')
                     in case String rt txt of
                          Inl e \<Rightarrow> None
                        | Inr t \<Rightarrow>
                           (case JSON_parse rt t of
                              Inl e \<Rightarrow> None
                            | Inr item \<Rightarrow> Some \<lparr>status = 200, body = item\<rparr>))))
          else None)"

text \<open>\<open>Number(req.query.elo || 1200)\<close>.\<close>

definition elo_of :: "runtime \<Rightarrow> jsval \<Rightarrow> jsnum outcome" where
  "elo_of rt q = Number rt (or_else q (Num (Fin 1200)))"

text \<open>
  \<open>GET /api/tradegpt/quiz\<close>, on the value of \<open>req.query.elo\<close> (\<open>undefined\<close> when the
  parameter is absent) and the value that \<open>Math.random()\<close> would return.
\<close>

definition quiz :: "runtime \<Rightarrow> network \<Rightarrow> env \<Rightarrow> jsval \<Rightarrow> rat \<Rightarrow> reply \<times> request list" where
  "quiz rt net e q rnd =
     (case elo_of rt q of
        Inl err \<Rightarrow> (server_error err, [])
      | Inr elo \<Rightarrow>
          if env_or (QUIZ_MODE e) ''static'' = ''llm'' then
            (let req = quiz_request rt e elo
             in case generated rt (net req) of
                  Some r \<Rightarrow> (r, [req])
                | None \<Rightarrow> (static_quiz rnd, [req]))
          else (static_quiz rnd, []))"

section \<open>Notions of the specification\<close>

text \<open>
  The names that answer in \<open>map[symbol]\<close> without being keys of the literal.
\<close>

definition inherited :: "string \<Rightarrow> bool" where
  "inherited symbol =
     (symbol \<in> set (map fst object_prototype_functions) \<or> symbol = ''__proto__'')"

text \<open>The simpler pair: the upper-cased symbol followed by \<open>USDT\<close>.\<close>

definition pair_simple :: "string \<Rightarrow> pair_value" where
  "pair_simple symbol = PairText (toUpperCase symbol @ ''USDT'')"

text \<open>
  A symbol occurs in a prompt as a whole word, in any letter case: some stretch of the
  prompt spells it, with no word character right before or right after the stretch.
\<close>

definition occurs_as_whole_word :: "string \<Rightarrow> string \<Rightarrow> bool" where
  "occurs_as_whole_word s p =
     (\<exists>pre w post. p = pre @ w @ post \<and> map upper_char w = map upper_char s \<and>
        (pre = [] \<or> \<not> is_word_char (last pre)) \<and> (post = [] \<or> \<not> is_word_char (hd post)))"

text \<open>The quotes that the ask route resolves for a prompt text.\<close>

definition quotes :: "runtime \<Rightarrow> network \<Rightarrow> string \<Rightarrow> (string \<times> jsnum option) list" where
  "quotes rt net ptext =
     map (\<lambda>s. (s, price_of_reply rt (net (GET (price_url s))))) (take 3 (found ptext))"

text \<open>
  The two values of the randomness source at which the selected item changes: the doubles
  next below one third and two thirds.
\<close>

definition first_cut :: rat where
  "first_cut = (1 - 1 / 2 ^ 54) / 3"

definition second_cut :: rat where
  "second_cut = (2 - 1 / 2 ^ 53) / 3"

text \<open>The content of the first choice's message in a completion reply.\<close>

definition first_content :: "jsval \<Rightarrow> jsval" where
  "first_content data =
     opt_prop (opt_prop (opt_index0 (opt_prop data ''choices'')) ''message'') ''content''"

section \<open>Sample runtimes and networks\<close>

text \<open>
  A runtime for the examples. Its \<open>JSON.parse\<close> knows the listed documents and rejects
  every other text; its other conversions give the answers for text that is no number
  and for a plain object. The examples consult it at the listed documents only.
\<close>

definition parse_table :: "(string \<times> jsval) list \<Rightarrow> string \<Rightarrow> jsval outcome" where
  "parse_table docs t =
     (case map_of docs t of Some v \<Rightarrow> Inr v | None \<Rightarrow> Inl ''SyntaxError: Unexpected token'')"

definition sample_runtime :: "(string \<times> jsval) list \<Rightarrow> runtime" where
  "sample_runtime docs =
     \<lparr>JSON_parse = parse_table docs,
      StringToNumber = (\<lambda>s. NaN),
      ObjectToNumber = (\<lambda>v. Inr NaN),
      ObjectToString = (\<lambda>v. Inr ''[object Object]''),
      NumberToString = (\<lambda>n. ''NaN'')\<rparr>"

text \<open>A network that answers by URL and is unreachable for every other URL.\<close>

fun url :: "request \<Rightarrow> string" where
  "url (GET u) = u"
| "url (POST u h b) = u"

definition routes :: "(string \<times> response outcome) list \<Rightarrow> network" where
  "routes tbl req =
     (case map_of tbl (url req) of Some r \<Rightarrow> r | None \<Rightarrow> Inl ''FetchError: request failed'')"

definition no_env :: env where
  "no_env = \<lparr>OPENAI_API_KEY = None, OPENAI_MODEL_var = None, QUIZ_MODE = None\<rparr>"

definition llm_env :: env where
  "llm_env = \<lparr>OPENAI_API_KEY = Some ''sk-test'', OPENAI_MODEL_var = None, QUIZ_MODE = Some ''llm''\<rparr>"

text \<open>
  A price reply and a completion reply with the values they parse to, a network that
  serves both, one whose completion endpoint refuses, and a request that names a ticker.
\<close>

definition price_doc :: string where
  "price_doc = ''{\"symbol\":\"BTCUSDT\",\"price\":\"65000\"}''"

definition price_data :: jsval where
  "price_data = Obj [(''symbol'', Str ''BTCUSDT''), (''price'', Str ''65000'')]"

definition completion_doc :: string where
  "completion_doc = ''{\"choices\":[{\"message\":{\"content\":\"BTC is a coin.\"}}],\"usage\":{\"total_tokens\":42}}''"

definition completion_data :: jsval where
  "completion_data =
     Obj [(''choices'', Arr [Obj [(''message'', Obj [(''content'', Str ''BTC is a coin.'')])]]),
          (''usage'', Obj [(''total_tokens'', Num (Fin 42))])]"

definition sample_rt :: runtime where
  "sample_rt = sample_runtime [(price_doc, price_data), (completion_doc, completion_data)]"

definition net_ok :: network where
  "net_ok = routes [(price_url ''BTC'', Inr (Response True (Inr price_doc))),
                    (completions_url, Inr (Response True (Inr completion_doc)))]"

definition net_limited :: network where
  "net_limited = routes [(price_url ''BTC'', Inr (Response True (Inr price_doc))),
                    (completions_url, Inr (Response False (Inr ''rate limited'')))]"

definition btc_question :: jsval where
  "btc_question = Obj [(''prompt'', Str ''What is BTC?'')]"

text \<open>
  Completion replies for the quiz route: one whose content is no JSON text, one with no
  choice, one whose content is an item with the answer index 7; a runtime that knows
  them, and a network whose completion endpoint gives a fixed outcome.
\<close>

definition garbage_doc :: string where
  "garbage_doc = ''{\"choices\":[{\"message\":{\"content\":\"oops\"}}]}''"

definition garbage_data :: jsval where
  "garbage_data = Obj [(''choices'', Arr [Obj [(''message'', Obj [(''content'', Str ''oops'')])]])]"

definition no_choice_doc :: string where
  "no_choice_doc = ''{\"choices\":[]}''"

definition no_choice_data :: jsval where
  "no_choice_data = Obj [(''choices'', Arr [])]"

definition bad_item_text :: string where
  "bad_item_text = ''{\"q\":\"Pick one\",\"opts\":[\"A\",\"B\",\"C\"],\"a\":7}''"

definition bad_item :: jsval where
  "bad_item = Obj [(''q'', Str ''Pick one''), (''opts'', Arr [Str ''A'', Str ''B'', Str ''C'']),
                   (''a'', Num (Fin 7))]"

text \<open>A text as a JSON string literal, when only its quotes need an escape.\<close>

definition json_string :: "string \<Rightarrow> string" where
  "json_string s =
     [CHR 0x22] @ concat (map (\<lambda>c. if c = CHR 0x22 then [CHR 0x5C, CHR 0x22] else [c]) s) @ [CHR 0x22]"

definition bad_item_doc :: string where
  "bad_item_doc = ''{\"choices\":[{\"message\":{\"content\":'' @ json_string bad_item_text @ ''}}]}''"

definition bad_item_data :: jsval where
  "bad_item_data = Obj [(''choices'', Arr [Obj [(''message'', Obj [(''content'', Str bad_item_text)])]])]"

definition quiz_rt :: runtime where
  "quiz_rt = sample_runtime
     [(garbage_doc, garbage_data), (no_choice_doc, no_choice_data), (''{}'', Obj []),
      (bad_item_doc, bad_item_data), (bad_item_text, bad_item)]"

definition completion_net :: "response outcome \<Rightarrow> network" where
  "completion_net r = routes [(completions_url, r)]"

text \<open>
  Networks whose completion endpoint answers with a success status and the body \<open>null\<close>,
  or a body that is no JSON text, and a runtime that knows the former.
\<close>

definition null_rt :: runtime where
  "null_rt = sample_runtime [(price_doc, price_data), (''null'', Null)]"

definition net_null :: network where
  "net_null = routes [(price_url ''BTC'', Inr (Response True (Inr price_doc))),
                      (completions_url, Inr (Response True (Inr ''null'')))]"

definition net_html :: network where
  "net_html = routes [(price_url ''BTC'', Inr (Response True (Inr price_doc))),
                      (completions_url, Inr (Response True (Inr ''<html>Bad gateway</html>'')))]"

text \<open>
  A value of the \<open>elo\<close> parameter that \<open>Number\<close> cannot convert: an object whose \<open>toString\<close>
  is no function; and a runtime that throws on it, as the conversion does.
\<close>

definition unconvertible :: jsval where
  "unconvertible = Obj [(''toString'', Str ''1'')]"

definition strict_rt :: runtime where
  "strict_rt =
     \<lparr>JSON_parse = parse_table [],
      StringToNumber = (\<lambda>s. NaN),
      ObjectToNumber = (\<lambda>v. if v = unconvertible
                              then Inl ''TypeError: Cannot convert object to primitive value''
                              else Inr NaN),
      ObjectToString = (\<lambda>v. Inr ''[object Object]''),
      NumberToString = (\<lambda>n. ''NaN'')\<rparr>"

section \<open>Price lookup: results\<close>

lemma falsy_Num: "falsy (Num n) \<longleftrightarrow> n = NaN \<or> n = Fin 0"
  by (cases n) auto

lemma upper_tick:
  "toUpperCase ''BTC'' = ''BTC''" "toUpperCase ''ETH'' = ''ETH''" "toUpperCase ''SOL'' = ''SOL''"
  by (simp_all add: toUpperCase_def upper_char_def lower_letters_def upper_letters_def)

text \<open>
  C10, as amended. For every symbol that names no member inherited from
  \<open>Object.prototype\<close>, the pair that \<open>getUsdPrice\<close> computes is the upper-cased symbol
  followed by \<open>USDT\<close>: on those symbols the override map changes nothing.
\<close>

theorem pair_override_redundant: "\<not> inherited symbol \<Longrightarrow> pair symbol = pair_simple symbol"
proof -
  assume h: "\<not> inherited symbol"
  then have a: "map_of object_prototype_functions symbol = None" and b: "symbol \<noteq> ''__proto__''"
    by (simp_all add: inherited_def map_of_eq_None_iff)
  show ?thesis
  proof (cases "map_of pair_map symbol")
    case None
    with a b show ?thesis by (simp add: pair_def map_lookup_def pair_simple_def)
  next
    case (Some p)
    then have "(symbol = ''BTC'' \<and> p = ''BTCUSDT'') \<or> (symbol = ''ETH'' \<and> p = ''ETHUSDT'')
        \<or> (symbol = ''SOL'' \<and> p = ''SOLUSDT'')"
      by (auto simp: pair_map_def split: if_splits)
    with Some show ?thesis
      by (auto simp: pair_def map_lookup_def pair_simple_def upper_tick)
  qed
qed

theorem pair_override_redundant_witness:
  "\<not> inherited ''doge'' \<and> pair ''doge'' = PairText ''DOGEUSDT''
   \<and> \<not> inherited ''BTC'' \<and> pair ''BTC'' = PairText ''BTCUSDT''"
  using pair_override_redundant [of "''doge''"] pair_override_redundant [of "''BTC''"]
  by (simp add: inherited_def object_prototype_functions_def pair_simple_def toUpperCase_def
      upper_char_def lower_letters_def upper_letters_def)

text \<open>
  C10 as stated fails: for the symbol \<open>constructor\<close> the lookup in the map answers with
  the inherited function \<open>Object\<close>, which is not the text \<open>CONSTRUCTORUSDT\<close>.
\<close>

theorem pair_constructor_counterexample:
  "pair ''constructor'' = InheritedFunction ''Object''
   \<and> pair ''constructor'' \<noteq> pair_simple ''constructor''"
  by (simp add: pair_def map_lookup_def pair_map_def object_prototype_functions_def pair_simple_def)




section \<open>The ask route: results\<close>

lemma opt_prop_or_else: "opt_prop (or_else b (Obj [])) k = opt_prop b k"
  by (cases b) (auto simp: or_else_def)

lemma get_prop_opt: "\<not> nullish v \<Longrightarrow> get_prop v k = Inr (opt_prop v k)"
  by (cases v) (auto simp: nullish_def)

lemma assign_fresh: "k \<notin> fst ` set kvs \<Longrightarrow> assign kvs k v = kvs @ [(k, v)]"
  by (induction kvs) auto

lemma lookup_prices_calls:
  "snd (lookup_prices rt net ss prices calls) = calls @ map (\<lambda>s. GET (price_url s)) ss"
  by (induction ss arbitrary: prices calls) (auto simp: getUsdPrice_def Let_def)

lemma lookup_prices_prices:
  "distinct ss \<Longrightarrow> set ss \<inter> fst ` set prices = {} \<Longrightarrow>
   fst (lookup_prices rt net ss prices calls) =
     prices @ map (\<lambda>s. (s, price_of_reply rt (net (GET (price_url s))))) ss"
proof (induction ss arbitrary: prices calls)
  case Nil
  then show ?case by simp
next
  case (Cons s ss)
  have fresh: "s \<notin> fst ` set prices" using Cons.prems by auto
  have "set ss \<inter> fst ` set (prices @ [(s, price_of_reply rt (net (GET (price_url s))))]) = {}"
    using Cons.prems by auto
  with Cons.IH[of "prices @ [(s, price_of_reply rt (net (GET (price_url s))))]"] Cons.prems fresh
  show ?case by (simp add: getUsdPrice_def Let_def assign_fresh)
qed

lemma distinct_found: "distinct (take 3 (found p))"
  by (rule distinct_take) (simp add: found_def tickers_def)

lemma lookup_prices_found:
  "lookup_prices rt net (take 3 (found p)) [] [] =
     (quotes rt net p, map (\<lambda>s. GET (price_url s)) (take 3 (found p)))"
  using lookup_prices_prices[OF distinct_found, of p "[]" rt net "[]"]
        lookup_prices_calls[of rt net "take 3 (found p)" "[]" "[]"]
  by (simp add: quotes_def prod_eq_iff)

text \<open>A request with a prompt that has a text reaches the completion call.\<close>

lemma ask_dispatched:
  assumes "\<not> falsy (opt_prop b ''prompt'')" and "String rt (opt_prop b ''prompt'') = Inr ptext"
  shows "ask rt net e b =
     (ask_reply rt (quotes rt net ptext)
        (net (ask_request rt e (model_of e b) (opt_prop b ''prompt'') (quotes rt net ptext))),
      map (\<lambda>s. GET (price_url s)) (take 3 (found ptext)) @
        [ask_request rt e (model_of e b) (opt_prop b ''prompt'') (quotes rt net ptext)])"
  using assms by (simp add: ask_def opt_prop_or_else Let_def lookup_prices_found model_of_def)

text \<open>When calls were made, the last one is the completion call, after the price calls.\<close>

lemma ask_calls_cases:
  assumes "snd (ask rt net e b) = calls @ [req]"
  obtains ptext where "\<not> falsy (opt_prop b ''prompt'')"
    "String rt (opt_prop b ''prompt'') = Inr ptext"
    "req = ask_request rt e (model_of e b) (opt_prop b ''prompt'') (quotes rt net ptext)"
    "calls = map (\<lambda>s. GET (price_url s)) (take 3 (found ptext))"
proof (cases "falsy (opt_prop b ''prompt'')")
  case True
  then have "snd (ask rt net e b) = []" by (simp add: ask_def opt_prop_or_else Let_def)
  with assms show ?thesis by simp
next
  case False
  show ?thesis
  proof (cases "String rt (opt_prop b ''prompt'')")
    case (Inl err)
    with False have "snd (ask rt net e b) = []" by (simp add: ask_def opt_prop_or_else Let_def)
    with assms show ?thesis by simp
  next
    case (Inr ptext)
    from ask_dispatched[OF False Inr, of net e] assms that[OF False Inr] show ?thesis by simp
  qed
qed

text \<open>The sample request on the sample networks.\<close>

lemma found_btc: "found ''What is BTC?'' = [''BTC'']"
  by code_simp

lemma quotes_btc: "quotes sample_rt net_ok ''What is BTC?'' = [(''BTC'', Some (Fin 65000))]"
  by (simp add: quotes_def found_btc price_of_reply_def net_ok_def routes_def sample_rt_def
      sample_runtime_def parse_table_def json_def price_url_def pair_def
      map_lookup_def pair_map_def string_to_number_def certainly_not_numeric_def
      numeric_literal_chars_def all_digits_def digits_value_def digit_chars_def falsy_Num
      price_doc_def completion_doc_def price_data_def)

lemma quotes_btc2: "quotes sample_rt net_limited ''What is BTC?'' = [(''BTC'', Some (Fin 65000))]"
  by (simp add: quotes_def found_btc price_of_reply_def net_limited_def routes_def sample_rt_def
      sample_runtime_def parse_table_def json_def price_url_def pair_def
      map_lookup_def pair_map_def string_to_number_def certainly_not_numeric_def
      numeric_literal_chars_def all_digits_def digits_value_def digit_chars_def falsy_Num
      price_doc_def completion_doc_def price_data_def)

lemma calls_ok:
  "snd (ask sample_rt net_ok no_env btc_question) =
     [GET (price_url ''BTC'')] @
     [ask_request sample_rt no_env (Str ''gpt-4o-mini'') (Str ''What is BTC?'') [(''BTC'', Some (Fin 65000))]]"
  using ask_dispatched [of btc_question sample_rt "''What is BTC?''" net_ok no_env]
  by (simp add: btc_question_def quotes_btc found_btc model_of_def OPENAI_MODEL_def env_or_def no_env_def)

text \<open>
  C6. A request whose body has no prompt, or an empty one (any falsy value), is answered
  with status 400 and \<open>{ error: "Missing prompt" }\<close>, and no outbound call is made.
\<close>

theorem ask_missing_prompt:
  "falsy (opt_prop b ''prompt'') \<Longrightarrow>
   ask rt net e b = (\<lparr>status = 400, body = Obj [(''error'', Str ''Missing prompt'')]\<rparr>, [])"
  by (simp add: ask_def opt_prop_or_else Let_def)

theorem ask_missing_prompt_witness:
  "ask sample_rt net_ok no_env (Obj []) =
     (\<lparr>status = 400, body = Obj [(''error'', Str ''Missing prompt'')]\<rparr>, [])
   \<and> ask sample_rt net_ok no_env (Obj [(''prompt'', Str [])]) =
     (\<lparr>status = 400, body = Obj [(''error'', Str ''Missing prompt'')]\<rparr>, [])
   \<and> ask sample_rt net_ok no_env Undefined =
     (\<lparr>status = 400, body = Obj [(''error'', Str ''Missing prompt'')]\<rparr>, [])"
  using ask_missing_prompt [of "Obj []" sample_rt net_ok no_env]
    ask_missing_prompt [of "Obj [(''prompt'', Str [])]" sample_rt net_ok no_env]
    ask_missing_prompt [of Undefined sample_rt net_ok no_env]
  by simp

text \<open>
  C5. When the completion call, the last call of the request, resolves with a
  non-success status and the body text \<open>d\<close>, the answer is status 502 with
  \<open>{ error: "OpenAI error", detail: d }\<close>.
\<close>

theorem ask_upstream_error:
  assumes "snd (ask rt net e b) = calls @ [req]" and "net req = Inr r" and "\<not> ok r"
    and "body_text r = Inr d"
  shows "fst (ask rt net e b) =
           \<lparr>status = 502, body = Obj [(''error'', Str ''OpenAI error''), (''detail'', Str d)]\<rparr>"
proof -
  from assms(1) obtain ptext where a: "\<not> falsy (opt_prop b ''prompt'')"
      "String rt (opt_prop b ''prompt'') = Inr ptext"
      "req = ask_request rt e (model_of e b) (opt_prop b ''prompt'') (quotes rt net ptext)"
    by (rule ask_calls_cases)
  from ask_dispatched[OF a(1) a(2), of net e] a(3) assms(2-4)
  show ?thesis by (simp add: ask_reply_def)
qed

theorem ask_upstream_error_witness:
  "fst (ask sample_rt net_limited no_env btc_question) =
     \<lparr>status = 502, body = Obj [(''error'', Str ''OpenAI error''), (''detail'', Str ''rate limited'')]\<rparr>"
proof -
  have 1: "snd (ask sample_rt net_limited no_env btc_question) =
     [GET (price_url ''BTC'')] @
     [ask_request sample_rt no_env (Str ''gpt-4o-mini'') (Str ''What is BTC?'') [(''BTC'', Some (Fin 65000))]]"
    using ask_dispatched [of btc_question sample_rt "''What is BTC?''" net_limited no_env]
    by (simp add: btc_question_def quotes_btc2 found_btc model_of_def OPENAI_MODEL_def env_or_def no_env_def)
  have 2: "net_limited (ask_request sample_rt no_env (Str ''gpt-4o-mini'') (Str ''What is BTC?'') [(''BTC'', Some (Fin 65000))])
      = Inr (Response False (Inr ''rate limited''))"
    by (simp add: net_limited_def routes_def ask_request_def completions_url_def price_url_def)
  from ask_upstream_error [OF 1 2] show ?thesis by simp
qed

text \<open>
  C7, as amended. When the completion call, the last call of the request, resolves with
  a success status and a body that parses as JSON to a value other than \<open>null\<close>, the
  answer is status 200 with \<open>{ reply, tokens, cost, live }\<close>: \<open>reply\<close> is the content of the
  first choice's message, or the empty string when that is absent or falsy; \<open>tokens\<close> is
  \<open>usage.total_tokens\<close>, or \<open>null\<close> when absent; \<open>cost\<close> is \<open>null\<close>; \<open>live\<close> has one entry for
  each symbol looked up (the first three tickers found in the prompt), in the order of
  the price calls, holding a number or \<open>null\<close>.
\<close>

theorem ask_success:
  assumes "snd (ask rt net e b) = calls @ [req]" and "net req = Inr r" and "ok r"
    and "json rt r = Inr data" and "\<not> nullish data"
  shows "\<exists>live. fst (ask rt net e b) =
           \<lparr>status = 200,
            body = Obj [(''reply'', or_else (first_content data) (Str [])),
                        (''tokens'', coalesce (opt_prop (opt_prop data ''usage'') ''total_tokens'') Null),
                        (''cost'', Null),
                        (''live'', Obj live)]\<rparr>
         \<and> (\<exists>ptext. String rt (opt_prop b ''prompt'') = Inr ptext \<and> map fst live = take 3 (found ptext))
         \<and> map (\<lambda>kv. GET (price_url (fst kv))) live = calls
         \<and> (\<forall>kv \<in> set live. snd kv = Null \<or> (\<exists>n. snd kv = Num n \<and> n \<noteq> NaN \<and> n \<noteq> Fin 0))"
proof -
  from assms(1) obtain ptext where a: "\<not> falsy (opt_prop b ''prompt'')"
      "String rt (opt_prop b ''prompt'') = Inr ptext"
      "req = ask_request rt e (model_of e b) (opt_prop b ''prompt'') (quotes rt net ptext)"
      "calls = map (\<lambda>s. GET (price_url s)) (take 3 (found ptext))"
    by (rule ask_calls_cases)
  let ?live = "map (\<lambda>kv. (fst kv, case snd kv of None \<Rightarrow> Null | Some n \<Rightarrow> Num n)) (quotes rt net ptext)"
  have 1: "fst (ask rt net e b) =
           \<lparr>status = 200,
            body = Obj [(''reply'', or_else (first_content data) (Str [])),
                        (''tokens'', coalesce (opt_prop (opt_prop data ''usage'') ''total_tokens'') Null),
                        (''cost'', Null),
                        (''live'', Obj ?live)]\<rparr>"
    using ask_dispatched[OF a(1) a(2), of net e] a(3) assms(2-5)
    by (simp add: ask_reply_def get_prop_opt Let_def first_content_def)
  have 2: "map (\<lambda>kv. GET (price_url (fst kv))) ?live = calls"
    by (simp add: a(4) quotes_def comp_def)
  have 3: "\<forall>kv \<in> set ?live. snd kv = Null \<or> (\<exists>n. snd kv = Num n \<and> n \<noteq> NaN \<and> n \<noteq> Fin 0)"
    by (auto simp: quotes_def price_of_reply_def split: option.splits sum.splits if_splits jsnum.splits)
  have 4: "\<exists>ptext. String rt (opt_prop b ''prompt'') = Inr ptext \<and> map fst ?live = take 3 (found ptext)"
    using a(2) by (simp add: quotes_def comp_def)
  from 1 2 3 4 show ?thesis by blast
qed

theorem ask_success_witness:
  "\<exists>live. fst (ask sample_rt net_ok no_env btc_question) =
       \<lparr>status = 200,
        body = Obj [(''reply'', Str ''BTC is a coin.''), (''tokens'', Num (Fin 42)),
                    (''cost'', Null), (''live'', Obj live)]\<rparr>
     \<and> map fst live = [''BTC'']"
proof -
  have 2: "net_ok (ask_request sample_rt no_env (Str ''gpt-4o-mini'') (Str ''What is BTC?'') [(''BTC'', Some (Fin 65000))])
      = Inr (Response True (Inr completion_doc))"
    by (simp add: net_ok_def routes_def ask_request_def completions_url_def price_url_def)
  have 3: "ok (Response True (Inr completion_doc))" by simp
  have 4: "json sample_rt (Response True (Inr completion_doc)) = Inr completion_data"
    by (simp add: json_def sample_rt_def sample_runtime_def parse_table_def price_doc_def completion_doc_def)
  have 5: "\<not> nullish completion_data" by (simp add: nullish_def completion_data_def)
  from ask_success [OF calls_ok 2 3 4 5] show ?thesis
    by (auto simp: completion_data_def or_else_def coalesce_def nullish_def btc_question_def
        found_btc first_content_def)
qed

text \<open>
  C7 as stated fails: a completion call that returns a success status with the body
  \<open>null\<close>, or with a body that is no JSON text, is answered with status 500.
\<close>

theorem ask_success_counterexample:
  "fst (ask null_rt net_null no_env btc_question) =
     \<lparr>status = 500,
      body = Obj [(''error'', Str ''Server error''),
                  (''detail'', Str (type_error ''null'' ''choices''))]\<rparr>
   \<and> fst (ask null_rt net_html no_env btc_question) =
     \<lparr>status = 500,
      body = Obj [(''error'', Str ''Server error''),
                  (''detail'', Str ''SyntaxError: Unexpected token'')]\<rparr>"
proof -
  have p: "\<not> falsy (opt_prop btc_question ''prompt'')"
    "String null_rt (opt_prop btc_question ''prompt'') = Inr ''What is BTC?''"
    by (simp_all add: btc_question_def)
  have a: "fst (ask null_rt net_null no_env btc_question) = server_error (type_error ''null'' ''choices'')"
    using ask_dispatched [OF p, of net_null no_env]
    by (simp add: ask_reply_def net_null_def routes_def ask_request_def completions_url_def
        price_url_def json_def null_rt_def sample_runtime_def parse_table_def price_doc_def)
  have b: "fst (ask null_rt net_html no_env btc_question) = server_error ''SyntaxError: Unexpected token''"
    using ask_dispatched [OF p, of net_html no_env]
    by (simp add: ask_reply_def net_html_def routes_def ask_request_def completions_url_def
        price_url_def json_def null_rt_def sample_runtime_def parse_table_def price_doc_def)
  from a b show ?thesis by (simp add: server_error_def)
qed

section \<open>Ticker extraction: results\<close>

lemma upper_char_lower: "x \<in> set lower_letters \<Longrightarrow> upper_char x \<in> set upper_letters"
proof -
  assume "x \<in> set lower_letters"
  then have "x \<in> fst ` set (zip lower_letters upper_letters)"
    by (simp add: lower_letters_def upper_letters_def)
  then obtain u where u: "map_of (zip lower_letters upper_letters) x = Some u"
    by (metis map_of_eq_None_iff not_Some_eq)
  then have "(x, u) \<in> set (zip lower_letters upper_letters)" by (rule map_of_SomeD)
  then have "u \<in> set upper_letters" by (rule set_zip_rightD)
  with u show ?thesis by (simp add: upper_char_def)
qed

lemma upper_char_other: "x \<notin> set lower_letters \<Longrightarrow> upper_char x = x"
proof -
  assume "x \<notin> set lower_letters"
  then have "x \<notin> fst ` set (zip lower_letters upper_letters)"
    by (simp add: lower_letters_def upper_letters_def)
  then have "map_of (zip lower_letters upper_letters) x = None"
    by (simp add: map_of_eq_None_iff)
  then show ?thesis by (simp add: upper_char_def)
qed

lemma word_char_of_match:
  assumes "is_word_char c" and "upper_char x = upper_char c"
  shows "is_word_char x"
proof (cases "x \<in> set lower_letters")
  case True
  then show ?thesis by (simp add: is_word_char_def)
next
  case False
  then have x: "upper_char x = x" by (rule upper_char_other)
  show ?thesis
  proof (cases "c \<in> set lower_letters")
    case True
    then have "upper_char c \<in> set upper_letters" by (rule upper_char_lower)
    with x assms(2) show ?thesis by (simp add: is_word_char_def)
  next
    case False
    then have "upper_char c = c" by (rule upper_char_other)
    with x assms show ?thesis by simp
  qed
qed

lemma match_lits:
  "match_here (map Lit s @ re) prev rest \<longleftrightarrow>
     (\<exists>w post. rest = w @ post \<and> map upper_char w = map upper_char s \<and>
        match_here re (if w = [] then prev else Some (last w)) post)"
proof (induction s arbitrary: prev rest)
  case Nil
  then show ?case by simp
next
  case (Cons c s)
  show ?case
  proof (cases rest)
    case Nil
    then show ?thesis by simp
  next
    case (Cons x xs)
    show ?thesis
    proof
      assume "match_here (map Lit (c # s) @ re) prev rest"
      with Cons have ux: "upper_char x = upper_char c" and m: "match_here (map Lit s @ re) (Some x) xs"
        by simp_all
      from m Cons.IH[of "Some x" xs] obtain w post where
        w: "xs = w @ post" "map upper_char w = map upper_char s"
           "match_here re (if w = [] then Some x else Some (last w)) post" by blast
      have "rest = (x # w) @ post" using Cons w(1) by simp
      moreover have "map upper_char (x # w) = map upper_char (c # s)" using ux w(2) by simp
      moreover have "match_here re (if x # w = [] then prev else Some (last (x # w))) post"
        using w(3) by (cases w) simp_all
      ultimately show "\<exists>w post. rest = w @ post \<and> map upper_char w = map upper_char (c # s) \<and>
        match_here re (if w = [] then prev else Some (last w)) post" by blast
    next
      assume "\<exists>w post. rest = w @ post \<and> map upper_char w = map upper_char (c # s) \<and>
        match_here re (if w = [] then prev else Some (last w)) post"
      then obtain w post where w: "rest = w @ post" "map upper_char w = map upper_char (c # s)"
        "match_here re (if w = [] then prev else Some (last w)) post" by blast
      from w(2) obtain y ys where y: "w = y # ys" by (cases w) auto
      with w Cons have xy: "x = y" "xs = ys @ post" by simp_all
      from w(2) y have u: "upper_char y = upper_char c" "map upper_char ys = map upper_char s" by simp_all
      have "match_here re (if ys = [] then Some x else Some (last ys)) post"
        using w(3) y xy by (simp split: if_splits)
      with Cons.IH[of "Some x" xs] xy u have "match_here (map Lit s @ re) (Some x) xs" by blast
      with Cons xy u show "match_here (map Lit (c # s) @ re) prev rest" by simp
    qed
  qed
qed

lemma search_iff:
  "search re prev rest \<longleftrightarrow>
     (\<exists>pre post. rest = pre @ post \<and> match_here re (if pre = [] then prev else Some (last pre)) post)"
proof (induction rest arbitrary: prev)
  case Nil
  then show ?case by simp
next
  case (Cons x xs)
  show ?case
  proof
    assume "search re prev (x # xs)"
    then consider "match_here re prev (x # xs)" | "search re (Some x) xs" by auto
    then show "\<exists>pre post. x # xs = pre @ post \<and> match_here re (if pre = [] then prev else Some (last pre)) post"
    proof cases
      case 1
      then have "x # xs = [] @ (x # xs) \<and> match_here re (if ([]::string) = [] then prev else Some (last [])) (x # xs)"
        by simp
      then show ?thesis by blast
    next
      case 2
      with Cons.IH[of "Some x"] obtain pre post where
        p: "xs = pre @ post" "match_here re (if pre = [] then Some x else Some (last pre)) post" by blast
      then have "x # xs = (x # pre) @ post \<and> match_here re (if x # pre = [] then prev else Some (last (x # pre))) post"
        by (cases pre) simp_all
      then show ?thesis by blast
    qed
  next
    assume "\<exists>pre post. x # xs = pre @ post \<and> match_here re (if pre = [] then prev else Some (last pre)) post"
    then obtain pre post where
      p: "x # xs = pre @ post" "match_here re (if pre = [] then prev else Some (last pre)) post" by blast
    show "search re prev (x # xs)"
    proof (cases pre)
      case Nil
      with p have "match_here re prev (x # xs)" by simp
      then show ?thesis by simp
    next
      case (Cons y ys)
      with p have q: "x = y" "xs = ys @ post" by simp_all
      have "match_here re (if ys = [] then Some x else Some (last ys)) post"
        using p(2) Cons q by (simp split: if_splits)
      with Cons.IH[of "Some x"] q have "search re (Some x) xs" by blast
      then show ?thesis by simp
    qed
  qed
qed

lemma boundary_before: "\<not> is_word_at (if pre = [] then None else Some (last pre)) \<longleftrightarrow> (pre = [] \<or> \<not> is_word_char (last pre))"
  by simp

lemma boundary_after: "\<not> is_word_at (next_char post) \<longleftrightarrow> (post = [] \<or> \<not> is_word_char (hd post))"
  by (cases post) simp_all

lemma regex_test_whole_word:
  assumes ne: "s \<noteq> []" and wd: "\<forall>c \<in> set s. is_word_char c"
  shows "regex_test (ticker_regex s) p = occurs_as_whole_word s p"
proof -
  have first: "is_word_at (next_char (w @ post))" and lastw: "w \<noteq> []" "is_word_char (last w)"
    if "map upper_char w = map upper_char s" for w post
  proof -
    from that have len: "length w = length s" by (metis length_map)
    with ne show w: "w \<noteq> []" by auto
    from that have nth: "\<And>i. i < length s \<Longrightarrow> upper_char (w ! i) = upper_char (s ! i)"
      by (metis len nth_map)
    have all: "\<And>i. i < length s \<Longrightarrow> is_word_char (w ! i)"
      using nth wd word_char_of_match by (metis nth_mem)
    from all[of 0] ne w show "is_word_at (next_char (w @ post))"
      by (cases w) auto
    from all[of "length s - 1"] ne len w show "is_word_char (last w)"
      by (simp add: last_conv_nth)
  qed
  have "regex_test (ticker_regex s) p \<longleftrightarrow>
      (\<exists>pre rest. p = pre @ rest \<and>
         is_word_at (if pre = [] then None else Some (last pre)) \<noteq> is_word_at (next_char rest) \<and>
         (\<exists>w post. rest = w @ post \<and> map upper_char w = map upper_char s \<and>
            is_word_at (if w = [] then (if pre = [] then None else Some (last pre)) else Some (last w))
              \<noteq> is_word_at (next_char post)))"
    by (simp add: regex_test_def ticker_regex_def search_iff match_lits[where re="[WordBoundary]", simplified])
  also have "\<dots> \<longleftrightarrow> occurs_as_whole_word s p"
  proof
    assume "\<exists>pre rest. p = pre @ rest \<and>
         is_word_at (if pre = [] then None else Some (last pre)) \<noteq> is_word_at (next_char rest) \<and>
         (\<exists>w post. rest = w @ post \<and> map upper_char w = map upper_char s \<and>
            is_word_at (if w = [] then (if pre = [] then None else Some (last pre)) else Some (last w))
              \<noteq> is_word_at (next_char post))"
    then obtain pre rest w post where h: "p = pre @ rest"
      "is_word_at (if pre = [] then None else Some (last pre)) \<noteq> is_word_at (next_char rest)"
      "rest = w @ post" "map upper_char w = map upper_char s"
      "is_word_at (if w = [] then (if pre = [] then None else Some (last pre)) else Some (last w))
              \<noteq> is_word_at (next_char post)" by blast
    from first[OF h(4), of post] h(2,3) have b1: "pre = [] \<or> \<not> is_word_char (last pre)"
      by (auto split: if_splits)
    from lastw[OF h(4)] h(5) have "\<not> is_word_at (next_char post)" by simp
    then have b2: "post = [] \<or> \<not> is_word_char (hd post)" by (simp add: boundary_after)
    from h(1,3,4) b1 b2 show "occurs_as_whole_word s p"
      unfolding occurs_as_whole_word_def by blast
  next
    assume "occurs_as_whole_word s p"
    then obtain pre w post where h: "p = pre @ w @ post" "map upper_char w = map upper_char s"
      "pre = [] \<or> \<not> is_word_char (last pre)" "post = [] \<or> \<not> is_word_char (hd post)"
      unfolding occurs_as_whole_word_def by blast
    from h(3) first[OF h(2), of post]
    have c1: "is_word_at (if pre = [] then None else Some (last pre)) \<noteq> is_word_at (next_char (w @ post))"
      by auto
    from h(4) have "\<not> is_word_at (next_char post)" by (simp add: boundary_after)
    with lastw[OF h(2)]
    have c2: "is_word_at (if w = [] then (if pre = [] then None else Some (last pre)) else Some (last w))
              \<noteq> is_word_at (next_char post)" by simp
    from h(1,2) c1 c2 show "\<exists>pre rest. p = pre @ rest \<and>
         is_word_at (if pre = [] then None else Some (last pre)) \<noteq> is_word_at (next_char rest) \<and>
         (\<exists>w post. rest = w @ post \<and> map upper_char w = map upper_char s \<and>
            is_word_at (if w = [] then (if pre = [] then None else Some (last pre)) else Some (last w))
              \<noteq> is_word_at (next_char post))" by blast
  qed
  finally show ?thesis by simp
qed

lemma tickers_words: "s \<in> set tickers \<Longrightarrow> s \<noteq> [] \<and> (\<forall>c \<in> set s. is_word_char c)"
  by (auto simp: tickers_def is_word_char_def upper_letters_def)

lemma found_whole_words: "found p = filter (\<lambda>s. occurs_as_whole_word s p) tickers"
  unfolding found_def
  by (rule filter_cong) (simp_all add: regex_test_whole_word tickers_words)

text \<open>
  A ticker inside a longer token is not found; one next to punctuation is, in any case.
\<close>

lemma whole_word_examples:
  "found ''btcx BTC_1 sol-usd'' = [''SOL'']"
  by code_simp

lemma found_sol_btc: "found ''SOL BTC'' = [''BTC'', ''SOL'']"
  by code_simp

text \<open>
  C4, as amended. For every prompt text, the tickers found are exactly the allow-listed
  symbols that occur in the prompt as whole words, in any letter case, listed in the
  order of the allow-list; and the price calls of the request are made for the first
  three of them, in that order.
\<close>

theorem tickers_found_and_looked_up:
  assumes "\<not> falsy (opt_prop b ''prompt'')" and "String rt (opt_prop b ''prompt'') = Inr p"
  shows "found p = filter (\<lambda>s. occurs_as_whole_word s p) tickers
         \<and> butlast (snd (ask rt net e b)) =
             map (\<lambda>s. GET (price_url s)) (take 3 (filter (\<lambda>s. occurs_as_whole_word s p) tickers))"
  using ask_dispatched [OF assms, of net e] by (simp add: found_whole_words [symmetric] butlast_append)

theorem tickers_found_and_looked_up_witness:
  "filter (\<lambda>s. occurs_as_whole_word s ''What is BTC?'') tickers = [''BTC'']
   \<and> butlast (snd (ask sample_rt net_ok no_env btc_question)) = [GET (price_url ''BTC'')]"
proof -
  have a: "\<not> falsy (opt_prop btc_question ''prompt'')"
    and b: "String sample_rt (opt_prop btc_question ''prompt'') = Inr ''What is BTC?''"
    by (simp_all add: btc_question_def)
  note t = tickers_found_and_looked_up [OF a b, of net_ok no_env]
  from t [THEN conjunct1, symmetric] t [THEN conjunct2] show ?thesis
    by (simp add: found_btc)
qed

text \<open>
  C4 as stated fails on the order: for the prompt \<open>SOL BTC\<close> the price of BTC is looked
  up before the price of SOL, although SOL comes first in the prompt.
\<close>

theorem lookup_order_counterexample:
  "map url (snd (ask sample_rt net_ok no_env (Obj [(''prompt'', Str ''SOL BTC'')]))) =
     [''https://api.binance.com/api/v3/ticker/price?symbol=BTCUSDT'',
      ''https://api.binance.com/api/v3/ticker/price?symbol=SOLUSDT'',
      ''https://api.openai.com/v1/chat/completions'']"
  using ask_dispatched [of "Obj [(''prompt'', Str ''SOL BTC'')]" sample_rt "''SOL BTC''" net_ok no_env]
  by (simp add: found_sol_btc price_url_def pair_def map_lookup_def pair_map_def ask_request_def completions_url_def)

section \<open>The system instruction: results\<close>

lemma join_snoc: "xs \<noteq> [] \<Longrightarrow> join sep (xs @ [y]) = join sep xs @ sep @ y"
  by (induction sep xs rule: join.induct) auto

lemma system_split: "system rt prices = join '' '' persona @ '' '' @ priceLine rt prices"
  by (simp add: system_def join_snoc persona_def)

lemma digit_chars_nth: "d < 10 \<Longrightarrow> digit_chars ! d \<in> set digit_chars"
  by (rule nth_mem) (simp add: digit_chars_def)

lemma digit_chars_value: "d < 10 \<Longrightarrow> (of_char (digit_chars ! d) :: nat) - 48 = d"
proof -
  assume "d < 10"
  then have "d \<in> {0, 1, 2, 3, 4, 5, 6, 7, 8, 9}" by auto
  then show ?thesis by (auto simp: digit_chars_def)
qed

lemma decimal_digits: "decimal n \<noteq> [] \<and> set (decimal n) \<subseteq> set digit_chars"
proof (induction n rule: decimal.induct)
  case (1 n)
  show ?case
  proof (cases "n < 10")
    case True
    then show ?thesis by (simp add: decimal.simps [of n] digit_chars_nth)
  next
    case False
    with 1 have "decimal (n div 10) \<noteq> [] \<and> set (decimal (n div 10)) \<subseteq> set digit_chars" by simp
    moreover have "digit_chars ! (n mod 10) \<in> set digit_chars" by (simp add: digit_chars_nth)
    ultimately show ?thesis using False by (simp add: decimal.simps [of n])
  qed
qed

lemma digits_value_snoc: "digits_value (xs @ [c]) = 10 * digits_value xs + ((of_char c :: nat) - 48)"
  by (simp add: digits_value_def)

lemma digits_value_decimal: "digits_value (decimal n) = n"
proof (induction n rule: decimal.induct)
  case (1 n)
  show ?case
  proof (cases "n < 10")
    case True
    then show ?thesis by (simp add: decimal.simps [of n] digits_value_def digit_chars_value)
  next
    case False
    with 1 have "digits_value (decimal (n div 10)) = n div 10" by simp
    with False show ?thesis
      by (simp add: decimal.simps [of n] digits_value_snoc digit_chars_value)
  qed
qed

lemma digits_value_zeros: "digits_value (replicate k (CHR ''0'') @ m) = digits_value m"
proof -
  have "foldl (\<lambda>acc c. 10 * acc + ((of_char c :: nat) - 48)) 0 (replicate k (CHR ''0'')) = 0"
    by (induction k) simp_all
  then show ?thesis by (simp add: digits_value_def)
qed

lemma toFixed_two_decimals:
  assumes "\<bar>x\<bar> < 10 ^ 21"
  shows "\<exists>ds d1 d2. toFixed rt (Fin x) 2 = (if x < 0 then ''-'' else []) @ ds @ ''.'' @ [d1, d2]
           \<and> ds \<noteq> [] \<and> set (ds @ [d1, d2]) \<subseteq> set digit_chars
           \<and> digits_value (ds @ [d1, d2]) = nat \<lfloor>\<bar>x\<bar> * 100 + 1 / 2\<rfloor>"
proof -
  define k where "k = nat \<lfloor>\<bar>x\<bar> * 10 ^ 2 + 1 / 2\<rfloor>"
  define m' where "m' = replicate (2 + 1 - length (decimal k)) (CHR ''0'') @ decimal k"
  have len: "3 \<le> length m'" by (simp add: m'_def)
  have dig: "set m' \<subseteq> set digit_chars"
    using decimal_digits [of k] by (auto simp: m'_def digit_chars_def)
  have val: "digits_value m' = k" by (simp add: m'_def digits_value_zeros digits_value_decimal)
  define a where "a = take (length m' - 2) m'"
  define b where "b = drop (length m' - 2) m'"
  have ab: "m' = a @ b" by (simp add: a_def b_def)
  have "length b = 2" using len by (simp add: b_def)
  then obtain d1 d2 where b: "b = [d1, d2]"
    by (metis (no_types, opaque_lifting) One_nat_def Suc_1 length_0_conv length_Suc_conv)
  have a: "a \<noteq> []" using len by (auto simp: a_def)
  have eq: "toFixed rt (Fin x) 2 = (if x < 0 then ''-'' else []) @ a @ ''.'' @ b"
    using assms by (simp add: toFixed_def Let_def k_def m'_def a_def b_def)
  have k100: "k = nat \<lfloor>\<bar>x\<bar> * 100 + 1 / 2\<rfloor>" by (simp add: k_def)
  from eq a b dig val ab k100 show ?thesis by auto
qed

lemma floor_numeral_div: "\<lfloor>(numeral a :: rat) / numeral b\<rfloor> = numeral a div numeral b"
  using floor_divide_of_int_eq [of "numeral a" "numeral b", where ?'a = rat] by simp

text \<open>
  C2, as amended. When no symbol was looked up, the system instruction is the persona
  rules followed by a single space: there is no live-price clause. When at least one
  symbol was looked up, it ends with exactly one clause, which lists every symbol
  looked up, in order and joined by commas. An unknown price is written \<open>n/a\<close>. A known
  price is written with two decimals, as the nearest hundredth, when it is finite and
  below \<open>10^21\<close> in magnitude; a finite price from \<open>10^21\<close> on is written as \<open>String\<close> writes
  it, and an infinite one as \<open>Infinity\<close> or \<open>-Infinity\<close>.
\<close>

theorem price_clause:
  "system rt [] = join '' '' persona @ '' ''
   \<and> (prices \<noteq> [] \<longrightarrow>
        system rt prices =
          join '' '' persona @ '' Approx live prices (USDT): '' @
          join '', '' (map (price_entry rt) prices) @ ''.'')
   \<and> price_entry rt (k, None) = k @ '' ~ n/a''
   \<and> (\<bar>x\<bar> < 10 ^ 21 \<longrightarrow>
        (\<exists>ds d1 d2.
           price_entry rt (k, Some (Fin x)) =
             k @ '' ~ '' @ (if x < 0 then ''-'' else []) @ ds @ ''.'' @ [d1, d2]
           \<and> ds \<noteq> [] \<and> set (ds @ [d1, d2]) \<subseteq> set digit_chars
           \<and> digits_value (ds @ [d1, d2]) = nat \<lfloor>\<bar>x\<bar> * 100 + 1 / 2\<rfloor>))
   \<and> (10 ^ 21 \<le> \<bar>x\<bar> \<longrightarrow>
        price_entry rt (k, Some (Fin x)) =
          k @ '' ~ '' @ (if x < 0 then ''-'' else []) @ number_to_string rt (Fin \<bar>x\<bar>))
   \<and> price_entry rt (k, Some PosInf) = k @ '' ~ Infinity''
   \<and> price_entry rt (k, Some NegInf) = k @ '' ~ -Infinity''"
proof -
  have 1: "system rt [] = join '' '' persona @ '' ''"
    by (simp add: system_split priceLine_def)
  have 2: "prices \<noteq> [] \<longrightarrow>
        system rt prices =
          join '' '' persona @ '' Approx live prices (USDT): '' @
          join '', '' (map (price_entry rt) prices) @ ''.''"
    by (simp add: system_split priceLine_def)
  have 3: "price_entry rt (k, None) = k @ '' ~ n/a''"
    by (simp add: price_entry_def)
  have 4: "\<bar>x\<bar> < 10 ^ 21 \<longrightarrow>
        (\<exists>ds d1 d2.
           price_entry rt (k, Some (Fin x)) =
             k @ '' ~ '' @ (if x < 0 then ''-'' else []) @ ds @ ''.'' @ [d1, d2]
           \<and> ds \<noteq> [] \<and> set (ds @ [d1, d2]) \<subseteq> set digit_chars
           \<and> digits_value (ds @ [d1, d2]) = nat \<lfloor>\<bar>x\<bar> * 100 + 1 / 2\<rfloor>)"
  proof
    assume "\<bar>x\<bar> < 10 ^ 21"
    from toFixed_two_decimals [OF this, of rt] obtain ds d1 d2 where
      t: "toFixed rt (Fin x) 2 = (if x < 0 then ''-'' else []) @ ds @ ''.'' @ [d1, d2]"
         "ds \<noteq> []" "set (ds @ [d1, d2]) \<subseteq> set digit_chars"
         "digits_value (ds @ [d1, d2]) = nat \<lfloor>\<bar>x\<bar> * 100 + 1 / 2\<rfloor>" by blast
    have "price_entry rt (k, Some (Fin x)) =
             k @ '' ~ '' @ (if x < 0 then ''-'' else []) @ ds @ ''.'' @ [d1, d2]"
      by (simp only: price_entry_def fst_conv snd_conv option.case t(1))
    with t(2-4) show "\<exists>ds d1 d2.
           price_entry rt (k, Some (Fin x)) =
             k @ '' ~ '' @ (if x < 0 then ''-'' else []) @ ds @ ''.'' @ [d1, d2]
           \<and> ds \<noteq> [] \<and> set (ds @ [d1, d2]) \<subseteq> set digit_chars
           \<and> digits_value (ds @ [d1, d2]) = nat \<lfloor>\<bar>x\<bar> * 100 + 1 / 2\<rfloor>" by blast
  qed
  have 5: "10 ^ 21 \<le> \<bar>x\<bar> \<longrightarrow>
        price_entry rt (k, Some (Fin x)) =
          k @ '' ~ '' @ (if x < 0 then ''-'' else []) @ number_to_string rt (Fin \<bar>x\<bar>)"
    by (simp add: price_entry_def toFixed_def)
  have 6: "price_entry rt (k, Some PosInf) = k @ '' ~ Infinity''"
    "price_entry rt (k, Some NegInf) = k @ '' ~ -Infinity''"
    by (simp_all add: price_entry_def toFixed_def number_to_string_def)
  from 1 2 3 4 5 6 show ?thesis by blast
qed

lemma price_entry_sample:
  "price_entry sample_rt (''BTC'', Some (Fin (130001 / 2))) = ''BTC ~ 65000.50''"
  by (simp add: price_entry_def toFixed_def Let_def floor_numeral_div decimal.simps digit_chars_def)

theorem price_clause_witness:
  "[(''BTC'', Some (Fin (130001 / 2))), (''ETH'', None)] \<noteq> []
   \<and> \<bar>130001 / 2 :: rat\<bar> < 10 ^ 21
   \<and> system sample_rt [(''BTC'', Some (Fin (130001 / 2))), (''ETH'', None)] =
       join '' '' persona @ '' Approx live prices (USDT): BTC ~ 65000.50, ETH ~ n/a.''"
  using price_clause [of sample_rt "[(''BTC'', Some (Fin (130001 / 2))), (''ETH'', None)]"
      "''BTC''" "130001 / 2"]
    price_clause [of sample_rt "[(''BTC'', Some (Fin (130001 / 2))), (''ETH'', None)]"
      "''ETH''" "130001 / 2"]
  by (simp add: price_entry_sample)

text \<open>
  C2 as stated fails: with one symbol looked up and no price known, the clause is there,
  with the placeholder \<open>n/a\<close>; and a known price that is infinite is not written with
  two decimals.
\<close>

theorem price_clause_counterexample:
  "system sample_rt [(''BTC'', None)] =
     join '' '' persona @ '' Approx live prices (USDT): BTC ~ n/a.''
   \<and> system sample_rt [(''BTC'', Some PosInf)] =
     join '' '' persona @ '' Approx live prices (USDT): BTC ~ Infinity.''"
  by (simp add: system_split priceLine_def price_entry_def toFixed_def number_to_string_def)

section \<open>The quiz route: results\<close>

lemma bank_distinct: "distinct bank"
  by (simp add: bank_def)

text \<open>Rounding to the nearest double.\<close>

lemma round_even_cases:
  "round_even q = \<lfloor>q\<rfloor> \<or> round_even q = \<lfloor>q\<rfloor> + 1"
  by (simp add: round_even_def Let_def)

lemma round_even_lower: "of_int n \<le> q \<Longrightarrow> n \<le> round_even q"
proof -
  assume "of_int n \<le> q"
  then have "n \<le> \<lfloor>q\<rfloor>" by (simp add: le_floor_iff)
  with round_even_cases [of q] show ?thesis by auto
qed

lemma round_even_upper: "q < of_int n \<Longrightarrow> round_even q \<le> n"
proof -
  assume "q < of_int n"
  then have "\<lfloor>q\<rfloor> < n" by (simp add: floor_less_iff)
  with round_even_cases [of q] show ?thesis by auto
qed

lemma round_even_less_even:
  assumes "even n"
  shows "round_even q < n \<longleftrightarrow> q < of_int n - 1 / 2"
proof
  assume lt: "q < of_int n - 1 / 2"
  then have "q < of_int n" by simp
  then have f: "\<lfloor>q\<rfloor> < n" by (simp add: floor_less_iff)
  show "round_even q < n"
  proof (cases "\<lfloor>q\<rfloor> = n - 1")
    case True
    then have "q - of_int \<lfloor>q\<rfloor> < 1 / 2" using lt by simp
    then have "round_even q = \<lfloor>q\<rfloor>" by (simp add: round_even_def Let_def)
    with f show ?thesis by simp
  next
    case False
    with f have "\<lfloor>q\<rfloor> + 1 < n" by simp
    with round_even_cases [of q] show ?thesis by auto
  qed
next
  assume r: "round_even q < n"
  show "q < of_int n - 1 / 2"
  proof (rule ccontr)
    assume "\<not> q < of_int n - 1 / 2"
    then have ge: "of_int n - 1 / 2 \<le> q" by simp
    then have "of_int (n - 1) \<le> q" by simp
    then have f: "n - 1 \<le> \<lfloor>q\<rfloor>" by (simp only: le_floor_iff)
    show False
    proof (cases "\<lfloor>q\<rfloor> = n - 1")
      case True
      then have d: "1 / 2 \<le> q - of_int \<lfloor>q\<rfloor>" using ge by simp
      have odd: "odd \<lfloor>q\<rfloor>" using True assms by simp
      from d odd have "round_even q = \<lfloor>q\<rfloor> + 1" by (auto simp: round_even_def Let_def)
      with True r show False by simp
    next
      case False
      with f have "n \<le> \<lfloor>q\<rfloor>" by simp
      with round_even_cases [of q] r show False by auto
    qed
  qed
qed

lemma exponent_from_unique:
  "2 powi e \<le> x \<Longrightarrow> x < 2 powi (e + 1) \<Longrightarrow> e \<le> e0 \<Longrightarrow> e0 - int k \<le> e \<Longrightarrow>
   exponent_from k e0 x = e"
proof (induction k arbitrary: e0)
  case 0
  then show ?case by simp
next
  case (Suc k)
  show ?case
  proof (cases "2 powi e0 \<le> x")
    case True
    have "e0 < e + 1"
    proof (rule ccontr)
      assume "\<not> e0 < e + 1"
      then have "e + 1 \<le> e0" by simp
      then have "(2::rat) powi (e + 1) \<le> 2 powi e0" by (intro power_int_increasing) simp_all
      with True Suc.prems(2) show False by simp
    qed
    with Suc.prems(3) True show ?thesis by simp
  next
    case False
    with Suc.prems(1) have "e \<noteq> e0" by auto
    with Suc.prems(3) have "e \<le> e0 - 1" by simp
    moreover have "e0 - 1 - int k \<le> e" using Suc.prems(4) by simp
    ultimately have "exponent_from k (e0 - 1) x = e"
      using Suc.IH [of "e0 - 1"] Suc.prems(1,2) by simp
    with False show ?thesis by simp
  qed
qed

lemma exponent_from_bounds:
  "x < 2 powi (e + 1) \<Longrightarrow>
   x < 2 powi (exponent_from k e x + 1) \<and>
   (2 powi (exponent_from k e x) \<le> x \<or> exponent_from k e x = e - int k)"
proof (induction k arbitrary: e)
  case 0
  then show ?case by simp
next
  case (Suc k)
  show ?case
  proof (cases "2 powi e \<le> x")
    case True
    with Suc.prems show ?thesis by simp
  next
    case False
    then have "x < 2 powi (e - 1 + 1)" by simp
    from Suc.IH [OF this] False show ?thesis by (simp add: algebra_simps)
  qed
qed

lemma exponent_unique:
  "2 powi e \<le> x \<Longrightarrow> x < 2 powi (e + 1) \<Longrightarrow> - 1022 \<le> e \<Longrightarrow> e \<le> 1 \<Longrightarrow> exponent x = e"
  unfolding exponent_def by (rule exponent_from_unique) simp_all

lemma exponent_bounds:
  assumes "x < 4"
  shows "x < 2 powi (exponent x + 1)" and "2 powi (exponent x) \<le> x \<or> exponent x = - 1022"
proof -
  have "x < 2 powi (1 + 1)" using assms by simp
  from exponent_from_bounds [OF this, of 1023]
  show "x < 2 powi (exponent x + 1)" and "2 powi (exponent x) \<le> x \<or> exponent x = - 1022"
    by (simp_all add: exponent_def)
qed

lemma pow2_pos: "0 < (2::rat) powi e"
  by (simp add: zero_less_power_int)

lemma pow2_split: "(2::rat) powi (e + 1) = 2 ^ 53 * 2 powi (e - 52)"
proof -
  have "e + 1 = 53 + (e - 52)" by simp
  then have "(2::rat) powi (e + 1) = 2 powi (53 + (e - 52))" by (rule arg_cong)
  also have "\<dots> = 2 powi 53 * 2 powi (e - 52)" by (rule power_int_add) simp
  finally show ?thesis by simp
qed

lemma pow2_split': "(2::rat) powi e = 2 ^ 52 * 2 powi (e - 52)"
proof -
  have "e = 52 + (e - 52)" by simp
  then have "(2::rat) powi e = 2 powi (52 + (e - 52))" by (rule arg_cong)
  also have "\<dots> = 2 powi 52 * 2 powi (e - 52)" by (rule power_int_add) simp
  finally show ?thesis by simp
qed

lemma to_double_nonneg: "0 \<le> x \<Longrightarrow> 0 \<le> to_double x"
proof -
  assume "0 \<le> x"
  then have "of_int 0 \<le> x / 2 powi (exponent x - 52)" using pow2_pos by simp
  then have "0 \<le> round_even (x / 2 powi (exponent x - 52))" by (rule round_even_lower)
  then show ?thesis using pow2_pos [of "exponent x - 52"] by (simp add: to_double_def Let_def)
qed

lemma to_double_upper:
  assumes "x < 2 powi E" and "- 1021 \<le> E" and "E \<le> 2"
  shows "to_double x \<le> 2 powi E"
proof -
  define e where "e = exponent x"
  define u where "u = (2::rat) powi (e - 52)"
  have u: "0 < u" by (simp add: u_def pow2_pos)
  have "(2::rat) powi E \<le> 2 powi 2" using assms(3) by (intro power_int_increasing) simp_all
  with assms(1) have x4: "x < 4" by simp
  from exponent_bounds [OF x4] have b: "x < 2 powi (e + 1)" "2 powi e \<le> x \<or> e = - 1022"
    by (simp_all add: e_def)
  have eE: "e + 1 \<le> E"
  proof (cases "2 powi e \<le> x")
    case True
    show ?thesis
    proof (rule ccontr)
      assume "\<not> e + 1 \<le> E"
      then have "E \<le> e" by simp
      then have "(2::rat) powi E \<le> 2 powi e" by (intro power_int_increasing) simp_all
      with True assms(1) show False by simp
    qed
  next
    case False
    with b(2) assms(2) show ?thesis by simp
  qed
  have "x < 2 ^ 53 * u" using b(1) by (simp add: pow2_split u_def)
  then have "x / u < of_int (2 ^ 53)" using u by (simp add: pos_divide_less_eq)
  then have "round_even (x / u) \<le> 2 ^ 53" by (rule round_even_upper)
  then have "(of_int (round_even (x / u)) :: rat) \<le> of_int (2 ^ 53)" by (simp only: of_int_le_iff)
  then have "of_int (round_even (x / u)) * u \<le> 2 ^ 53 * u" using u by simp
  then have "to_double x \<le> 2 powi (e + 1)"
    by (simp add: to_double_def Let_def e_def [symmetric] u_def [symmetric] pow2_split)
  also have "\<dots> \<le> 2 powi E" using eE by (intro power_int_increasing) simp_all
  finally show ?thesis .
qed

lemma to_double_lower:
  assumes "2 powi e \<le> x" and "x < 2 powi (e + 1)" and "- 1022 \<le> e" and "e \<le> 1"
  shows "2 powi e \<le> to_double x"
proof -
  define u where "u = (2::rat) powi (e - 52)"
  have u: "0 < u" by (simp add: u_def pow2_pos)
  have ex: "exponent x = e" using assms by (rule exponent_unique)
  have "2 ^ 52 * u \<le> x" using assms(1) pow2_split' [of e] by (simp add: u_def)
  then have "of_int (2 ^ 52) \<le> x / u" using u by (simp add: pos_le_divide_eq)
  then have "2 ^ 52 \<le> round_even (x / u)" by (rule round_even_lower)
  then have "(of_int (2 ^ 52) :: rat) \<le> of_int (round_even (x / u))" by (simp only: of_int_le_iff)
  then have "2 ^ 52 * u \<le> of_int (round_even (x / u)) * u" using u by simp
  then show ?thesis
    by (simp add: to_double_def Let_def ex u_def [symmetric]) (simp add: pow2_split' [of e] u_def)
qed

lemma to_double_threshold:
  assumes "2 powi e \<le> x" and "x < 2 powi (e + 1)" and "- 1022 \<le> e" and "e \<le> 1" and "even n"
  shows "to_double x < of_int n * 2 powi (e - 52) \<longleftrightarrow> x < (of_int n - 1 / 2) * 2 powi (e - 52)"
proof -
  define u where "u = (2::rat) powi (e - 52)"
  have u: "0 < u" by (simp add: u_def pow2_pos)
  have ex: "exponent x = e" using assms(1-4) by (rule exponent_unique)
  have "to_double x < of_int n * u \<longleftrightarrow> of_int (round_even (x / u)) * u < of_int n * u"
    by (simp add: to_double_def Let_def ex u_def [symmetric])
  also have "\<dots> \<longleftrightarrow> round_even (x / u) < n" using u by simp
  also have "\<dots> \<longleftrightarrow> x / u < of_int n - 1 / 2" using assms(5) by (rule round_even_less_even)
  also have "\<dots> \<longleftrightarrow> x < (of_int n - 1 / 2) * u" using u by (simp add: pos_divide_less_eq)
  finally show ?thesis by (simp add: u_def)
qed

lemma to_double_less_1:
  assumes "0 \<le> x" and "x < 4"
  shows "to_double x < 1 \<longleftrightarrow> x < 1 - 1 / 2 ^ 54"
proof -
  consider "x < 1 / 2" | "1 / 2 \<le> x" "x < 1" | "1 \<le> x" "x < 2" | "2 \<le> x" by linarith
  then show ?thesis
  proof cases
    case 1
    then have "x < 2 powi (- 1)" by simp
    then have "to_double x \<le> 2 powi (- 1)" by (rule to_double_upper) simp_all
    with 1 show ?thesis by simp
  next
    case 2
    then have a: "2 powi (- 1) \<le> x" "x < 2 powi (- 1 + 1)" by simp_all
    from to_double_threshold [OF a, of "2 ^ 53"] show ?thesis by simp
  next
    case 3
    then have a: "2 powi 0 \<le> x" "x < 2 powi (0 + 1)" by simp_all
    from to_double_lower [OF a] 3 show ?thesis by simp
  next
    case 4
    with assms have a: "2 powi 1 \<le> x" "x < 2 powi (1 + 1)" by simp_all
    from to_double_lower [OF a] 4 show ?thesis by simp
  qed
qed

lemma to_double_less_2:
  assumes "0 \<le> x" and "x < 4"
  shows "to_double x < 2 \<longleftrightarrow> x < 2 - 1 / 2 ^ 53"
proof -
  consider "x < 1" | "1 \<le> x" "x < 2" | "2 \<le> x" by linarith
  then show ?thesis
  proof cases
    case 1
    then have "x < 2 powi 0" by simp
    then have "to_double x \<le> 2 powi 0" by (rule to_double_upper) simp_all
    with 1 show ?thesis by simp
  next
    case 2
    then have a: "2 powi 0 \<le> x" "x < 2 powi (0 + 1)" by simp_all
    from to_double_threshold [OF a, of "2 ^ 53"] show ?thesis by simp
  next
    case 3
    with assms have a: "2 powi 1 \<le> x" "x < 2 powi (1 + 1)" by simp_all
    from to_double_lower [OF a] 3 show ?thesis by simp
  qed
qed

lemma to_double_less_3:
  assumes "0 \<le> x" and "x < 4"
  shows "to_double x < 3 \<longleftrightarrow> x < 3 - 1 / 2 ^ 52"
proof -
  consider "x < 2" | "2 \<le> x" by linarith
  then show ?thesis
  proof cases
    case 1
    then have "x < 2 powi 1" by simp
    then have "to_double x \<le> 2 powi 1" by (rule to_double_upper) simp_all
    with 1 show ?thesis by simp
  next
    case 2
    with assms have a: "2 powi 1 \<le> x" "x < 2 powi (1 + 1)" by simp_all
    from to_double_threshold [OF a, of "3 * 2 ^ 51"] show ?thesis by simp
  qed
qed

lemma double_below_1:
  assumes "to_double x = x" and "0 \<le> x" and "x < 1"
  shows "x \<le> 1 - 1 / 2 ^ 53"
proof (cases "x < 1 / 2")
  case True
  then show ?thesis by simp
next
  case False
  with assms have a: "2 powi (- 1) \<le> x" "x < 2 powi (- 1 + 1)" by simp_all
  have ex: "exponent x = - 1" using a by (rule exponent_unique) simp_all
  define n where "n = round_even (x / 2 powi (- 53))"
  have x: "x = of_int n / 2 ^ 53"
    using assms(1) by (simp add: to_double_def Let_def ex n_def power_int_minus_divide)
  with assms(3) have "(of_int n :: rat) < 2 ^ 53" by (simp add: pos_divide_less_eq)
  then have "(of_int n :: rat) < of_int (2 ^ 53)" by simp
  then have "n < 2 ^ 53" by (simp only: of_int_less_iff)
  then have "n \<le> 2 ^ 53 - 1" by simp
  then have "(of_int n :: rat) \<le> of_int (2 ^ 53 - 1)" by (simp only: of_int_le_iff)
  then have "(of_int n :: rat) / 2 ^ 53 \<le> (2 ^ 53 - 1) / 2 ^ 53" by (simp add: divide_right_mono)
  with x show ?thesis by (simp add: field_simps)
qed

text \<open>The index that the static mode picks, for a double \<open>rnd\<close> from 0 up to 1.\<close>

lemma pick_index:
  assumes "0 \<le> rnd" and "rnd < 1" and "to_double rnd = rnd"
  shows "pick rnd = bank ! nat \<lfloor>to_double (rnd * 3)\<rfloor>"
    and "nat \<lfloor>to_double (rnd * 3)\<rfloor> < length bank"
    and "nat \<lfloor>to_double (rnd * 3)\<rfloor> = 0 \<longleftrightarrow> rnd < first_cut"
    and "nat \<lfloor>to_double (rnd * 3)\<rfloor> = 1 \<longleftrightarrow> first_cut \<le> rnd \<and> rnd < second_cut"
    and "nat \<lfloor>to_double (rnd * 3)\<rfloor> = 2 \<longleftrightarrow> second_cut \<le> rnd"
proof -
  define z where "z = to_double (rnd * 3)"
  have y: "0 \<le> rnd * 3" "rnd * 3 < 4" using assms(1,2) by simp_all
  have "rnd \<le> 1 - 1 / 2 ^ 53" using assms(3,1,2) by (rule double_below_1)
  then have "rnd * 3 < 3 - 1 / 2 ^ 52" by simp
  then have z3: "z < 3" using to_double_less_3 [OF y] by (simp add: z_def)
  have z0: "0 \<le> z" using y(1) by (simp add: z_def to_double_nonneg)
  have z1: "z < 1 \<longleftrightarrow> rnd < first_cut"
    using to_double_less_1 [OF y] by (simp add: z_def first_cut_def field_simps)
  have z2: "z < 2 \<longleftrightarrow> rnd < second_cut"
    using to_double_less_2 [OF y] by (simp add: z_def second_cut_def field_simps)
  have f0: "0 \<le> \<lfloor>z\<rfloor>" using z0 by simp
  have f3: "\<lfloor>z\<rfloor> < 3" using z3 by (simp add: floor_less_iff)
  have len: "length bank = 3" by (simp add: bank_def)
  have "pick rnd = (if 0 \<le> \<lfloor>z\<rfloor> \<and> \<lfloor>z\<rfloor> < 3 then bank ! nat \<lfloor>z\<rfloor> else Undefined)"
    by (simp add: pick_def Let_def len z_def)
  with f0 f3 show "pick rnd = bank ! nat \<lfloor>to_double (rnd * 3)\<rfloor>"
    by (simp only: z_def if_True simp_thms)
  from f0 f3 show "nat \<lfloor>to_double (rnd * 3)\<rfloor> < length bank"
    unfolding z_def [symmetric] len by linarith
  have "nat \<lfloor>z\<rfloor> = 0 \<longleftrightarrow> \<lfloor>z\<rfloor> < 1" using f0 by linarith
  also have "\<dots> \<longleftrightarrow> z < 1" by (simp add: floor_less_iff)
  finally show "nat \<lfloor>to_double (rnd * 3)\<rfloor> = 0 \<longleftrightarrow> rnd < first_cut"
    using z1 by (simp add: z_def)
  have "nat \<lfloor>z\<rfloor> = 2 \<longleftrightarrow> 2 \<le> \<lfloor>z\<rfloor>" using f0 f3 by linarith
  also have "\<dots> \<longleftrightarrow> 2 \<le> z" by (simp add: le_floor_iff)
  finally show i2: "nat \<lfloor>to_double (rnd * 3)\<rfloor> = 2 \<longleftrightarrow> second_cut \<le> rnd"
    using z2 by (auto simp: z_def)
  have "nat \<lfloor>z\<rfloor> = 1 \<longleftrightarrow> 1 \<le> \<lfloor>z\<rfloor> \<and> \<lfloor>z\<rfloor> < 2" using f0 by linarith
  also have "\<dots> \<longleftrightarrow> 1 \<le> z \<and> z < 2" by (simp add: le_floor_iff floor_less_iff)
  finally show "nat \<lfloor>to_double (rnd * 3)\<rfloor> = 1 \<longleftrightarrow> first_cut \<le> rnd \<and> rnd < second_cut"
    using z1 z2 by (auto simp: z_def)
qed

lemma cuts_near_thirds:
  "first_cut < 1 / 3" "second_cut < 2 / 3" "first_cut < second_cut" "second_cut < 1"
  "1 / 3 - first_cut < 1 / 2 ^ 53" "1 / 3 - (second_cut - first_cut) < 1 / 2 ^ 53"
  "second_cut - first_cut < 1 / 3"
  "1 / 3 < 1 - second_cut" "(1 - second_cut) - 1 / 3 < 1 / 2 ^ 53"
  by (simp_all add: first_cut_def second_cut_def)

lemma quiz_static:
  assumes "elo_of rt q = Inr elo" and "env_or (QUIZ_MODE e) ''static'' \<noteq> ''llm''"
  shows "quiz rt net e q rnd = (\<lparr>status = 200, body = pick rnd\<rparr>, [])"
  using assms by (simp add: quiz_def static_quiz_def)

lemma quiz_elo_throws:
  "elo_of rt q = Inl err \<Longrightarrow> quiz rt net e q rnd = (server_error err, [])"
  by (simp add: quiz_def)

lemma elo_of_text:
  "\<exists>elo. elo_of rt Undefined = Inr elo" "\<exists>elo. elo_of rt (Str s) = Inr elo"
  by (simp_all add: elo_of_def or_else_def)

lemma round_even_of_int: "round_even (of_int n) = n"
  by (simp add: round_even_def)

lemma to_double_multiple:
  assumes "2 ^ 52 \<le> n" and "n < 2 ^ 53" and "- 1022 \<le> e" and "e \<le> 1"
  shows "to_double (of_int n * 2 powi (e - 52)) = of_int n * 2 powi (e - 52)"
proof -
  define u where "u = (2::rat) powi (e - 52)"
  have u: "0 < u" by (simp add: u_def pow2_pos)
  have "(of_int (2 ^ 52) :: rat) \<le> of_int n" using assms(1) by (simp only: of_int_le_iff)
  then have lo: "2 powi e \<le> of_int n * u" using u by (simp add: pow2_split' [of e] u_def)
  have "(of_int n :: rat) < of_int (2 ^ 53)" using assms(2) by (simp only: of_int_less_iff)
  then have hi: "of_int n * u < 2 powi (e + 1)" using u by (simp add: pow2_split [of e] u_def)
  have ex: "exponent (of_int n * u) = e" using lo hi assms(3,4) by (rule exponent_unique)
  have "of_int n * u / u = (of_int n :: rat)" using u by simp
  then show ?thesis
    by (simp add: to_double_def Let_def ex u_def [symmetric] round_even_of_int)
qed

lemma double_half: "to_double (1 / 2) = 1 / 2"
  using to_double_multiple [of "2 ^ 52" "- 1"] by (simp add: power_int_minus_divide)

lemma double_second_cut: "to_double (6004799503160661 / 2 ^ 53) = 6004799503160661 / 2 ^ 53"
  using to_double_multiple [of 6004799503160661 "- 1"] by (simp add: power_int_minus_divide)

lemma double_first_cut: "to_double (6004799503160661 / 2 ^ 54) = 6004799503160661 / 2 ^ 54"
  using to_double_multiple [of 6004799503160661 "- 2"] by (simp add: power_int_minus_divide)

text \<open>
  C8, as amended. In static mode, for a request whose \<open>elo\<close> parameter converts to a
  number (an absent parameter and a text always do) and for every double \<open>rnd\<close> of the
  randomness source, from 0 up to but not including 1, the answer is status 200 with an
  item of the bank, and no outbound call is made. The item is the one at index
  \<open>floor\<close> of the double product \<open>rnd * 3\<close>: the first item below \<open>(1 - 2^-54) / 3\<close>, the
  second from there up to \<open>(2 - 2^-53) / 3\<close>, the third from there on. Each of the three
  portions has a length within \<open>2^-53\<close> of one third; they are not equal.
\<close>

theorem static_quiz_selection:
  assumes "elo_of rt q = Inr elo" and "env_or (QUIZ_MODE e) ''static'' \<noteq> ''llm''"
    and "0 \<le> rnd" and "rnd < 1" and "to_double rnd = rnd"
  shows "quiz rt net e q rnd = (\<lparr>status = 200, body = bank ! nat \<lfloor>to_double (rnd * 3)\<rfloor>\<rparr>, [])
         \<and> nat \<lfloor>to_double (rnd * 3)\<rfloor> < length bank
         \<and> (body (fst (quiz rt net e q rnd)) = bank ! 0 \<longleftrightarrow> rnd < first_cut)
         \<and> (body (fst (quiz rt net e q rnd)) = bank ! 1 \<longleftrightarrow> first_cut \<le> rnd \<and> rnd < second_cut)
         \<and> (body (fst (quiz rt net e q rnd)) = bank ! 2 \<longleftrightarrow> second_cut \<le> rnd)
         \<and> \<bar>first_cut - 1 / 3\<bar> < 1 / 2 ^ 53
         \<and> \<bar>(second_cut - first_cut) - 1 / 3\<bar> < 1 / 2 ^ 53
         \<and> \<bar>(1 - second_cut) - 1 / 3\<bar> < 1 / 2 ^ 53"
proof -
  note p = pick_index [OF assms(3-5)]
  have 1: "quiz rt net e q rnd = (\<lparr>status = 200, body = bank ! nat \<lfloor>to_double (rnd * 3)\<rfloor>\<rparr>, [])"
    using quiz_static [OF assms(1,2), of net rnd] p(1) by simp
  have sel: "body (fst (quiz rt net e q rnd)) = bank ! i \<longleftrightarrow> nat \<lfloor>to_double (rnd * 3)\<rfloor> = i"
    if "i < 3" for i
  proof -
    from that have "i < length bank" by (simp add: bank_def)
    with bank_distinct p(2) show ?thesis by (simp add: 1 nth_eq_iff_index_eq)
  qed
  have 3: "body (fst (quiz rt net e q rnd)) = bank ! 0 \<longleftrightarrow> rnd < first_cut"
    using sel [of 0] p(3) by simp
  have 4: "body (fst (quiz rt net e q rnd)) = bank ! 1 \<longleftrightarrow> first_cut \<le> rnd \<and> rnd < second_cut"
    using sel [of 1] p(4) by simp
  have 5: "body (fst (quiz rt net e q rnd)) = bank ! 2 \<longleftrightarrow> second_cut \<le> rnd"
    using sel [of 2] p(5) by simp
  have 6: "\<bar>first_cut - 1 / 3\<bar> < 1 / 2 ^ 53" "\<bar>(second_cut - first_cut) - 1 / 3\<bar> < 1 / 2 ^ 53"
    "\<bar>(1 - second_cut) - 1 / 3\<bar> < 1 / 2 ^ 53"
    by (simp_all add: first_cut_def second_cut_def)
  from 1 p(2) 3 4 5 6 show ?thesis by blast
qed

theorem static_quiz_selection_witness:
  "quiz sample_rt net_ok no_env Undefined (1 / 2) = (\<lparr>status = 200, body = bank ! 1\<rparr>, [])"
proof -
  have e: "elo_of sample_rt Undefined = Inr (Fin 1200)" by (simp add: elo_of_def or_else_def)
  have m: "env_or (QUIZ_MODE no_env) ''static'' \<noteq> ''llm''" by (simp add: no_env_def env_or_def)
  have r: "(0::rat) \<le> 1 / 2" "(1 / 2 :: rat) < 1" by simp_all
  have c: "first_cut \<le> 1 / 2" "1 / 2 < second_cut" by (simp_all add: first_cut_def second_cut_def)
  note t = static_quiz_selection [OF e m r double_half, of net_ok]
  from t c have b: "body (fst (quiz sample_rt net_ok no_env Undefined (1 / 2))) = bank ! 1" by blast
  from t have "quiz sample_rt net_ok no_env Undefined (1 / 2) =
      (\<lparr>status = 200, body = bank ! nat \<lfloor>to_double (1 / 2 * 3)\<rfloor>\<rparr>, [])" by blast
  with b show ?thesis by simp
qed

text \<open>
  C8 as stated fails. The double next below two thirds, 0.6666666666666666, selects the
  third item, and the double next below one third selects the second: the product with
  3 rounds up to 2 and to 1, so the portions are not thirds. And a request whose \<open>elo\<close>
  parameter cannot be converted is answered with status 500, also in static mode.
\<close>

theorem static_quiz_counterexample:
  "fst (quiz sample_rt net_ok no_env Undefined (6004799503160661 / 2 ^ 53)) = \<lparr>status = 200, body = bank ! 2\<rparr>
   \<and> (6004799503160661 / 2 ^ 53 :: rat) < 2 / 3
   \<and> fst (quiz sample_rt net_ok no_env Undefined (6004799503160661 / 2 ^ 54)) = \<lparr>status = 200, body = bank ! 1\<rparr>
   \<and> (6004799503160661 / 2 ^ 54 :: rat) < 1 / 3
   \<and> fst (quiz strict_rt net_ok no_env unconvertible (1 / 2)) =
       \<lparr>status = 500,
        body = Obj [(''error'', Str ''Server error''),
                    (''detail'', Str ''TypeError: Cannot convert object to primitive value'')]\<rparr>"
proof -
  have e: "elo_of sample_rt Undefined = Inr (Fin 1200)" by (simp add: elo_of_def or_else_def)
  have m: "env_or (QUIZ_MODE no_env) ''static'' \<noteq> ''llm''" by (simp add: no_env_def env_or_def)
  have r2: "(0::rat) \<le> 6004799503160661 / 2 ^ 53" "(6004799503160661 / 2 ^ 53 :: rat) < 1" by simp_all
  have r1: "(0::rat) \<le> 6004799503160661 / 2 ^ 54" "(6004799503160661 / 2 ^ 54 :: rat) < 1" by simp_all
  have c2: "second_cut \<le> 6004799503160661 / 2 ^ 53" by (simp add: second_cut_def)
  have c1: "first_cut \<le> 6004799503160661 / 2 ^ 54" "6004799503160661 / 2 ^ 54 < second_cut"
    by (simp_all add: first_cut_def second_cut_def)
  have a: "fst (quiz sample_rt net_ok no_env Undefined (6004799503160661 / 2 ^ 53)) = \<lparr>status = 200, body = bank ! 2\<rparr>"
    using quiz_static [OF e m, of net_ok "6004799503160661 / 2 ^ 53"]
      pick_index(1,5) [OF r2 double_second_cut] c2 by simp
  have b: "fst (quiz sample_rt net_ok no_env Undefined (6004799503160661 / 2 ^ 54)) = \<lparr>status = 200, body = bank ! 1\<rparr>"
    using quiz_static [OF e m, of net_ok "6004799503160661 / 2 ^ 54"]
      pick_index(1,4) [OF r1 double_first_cut] c1 by simp
  have t: "elo_of strict_rt unconvertible = Inl ''TypeError: Cannot convert object to primitive value''"
    by (simp add: elo_of_def or_else_def unconvertible_def strict_rt_def)
  have c: "fst (quiz strict_rt net_ok no_env unconvertible (1 / 2)) =
       \<lparr>status = 500,
        body = Obj [(''error'', Str ''Server error''),
                    (''detail'', Str ''TypeError: Cannot convert object to primitive value'')]\<rparr>"
    using quiz_elo_throws [OF t, of net_ok no_env "1 / 2"] by (simp add: server_error_def)
  have d: "(6004799503160661 / 2 ^ 53 :: rat) < 2 / 3" "(6004799503160661 / 2 ^ 54 :: rat) < 1 / 3" by simp_all
  from a b c d show ?thesis by blast
qed

lemma digits_numeric: "all_digits s \<Longrightarrow> \<not> certainly_not_numeric s"
proof -
  assume a: "all_digits s"
  have "set digit_chars \<subseteq> set numeric_literal_chars"
    by (simp add: digit_chars_def numeric_literal_chars_def)
  with a show ?thesis
    by (auto simp: all_digits_def certainly_not_numeric_def list_all_iff list_ex_iff)
qed

lemma not_numeric_nonempty: "certainly_not_numeric s \<Longrightarrow> s \<noteq> []"
  by (auto simp: certainly_not_numeric_def)

text \<open>
  C9, as amended. The skill rating is 1200 when the \<open>elo\<close> parameter is absent or empty,
  and \<open>Number(elo)\<close> otherwise: the value of a run of digits, and \<open>NaN\<close> for a text that
  is certainly no number. In generative mode the one outbound call is the generation
  request built from that rating.
\<close>

theorem elo_default:
  "(falsy q \<longrightarrow> elo_of rt q = Inr (Fin 1200))
   \<and> (\<not> falsy q \<longrightarrow> elo_of rt q = Number rt q)
   \<and> (all_digits s \<and> length s \<le> 15 \<longrightarrow> elo_of rt (Str s) = Inr (Fin (of_nat (digits_value s))))
   \<and> (certainly_not_numeric s \<longrightarrow> elo_of rt (Str s) = Inr NaN)
   \<and> (env_or (QUIZ_MODE e) ''static'' = ''llm'' \<and> elo_of rt q = Inr elo \<longrightarrow>
        snd (quiz rt net e q rnd) = [quiz_request rt e elo])"
proof -
  have 1: "falsy q \<longrightarrow> elo_of rt q = Inr (Fin 1200)" by (simp add: elo_of_def or_else_def)
  have 2: "\<not> falsy q \<longrightarrow> elo_of rt q = Number rt q" by (simp add: elo_of_def or_else_def)
  have 3: "all_digits s \<and> length s \<le> 15 \<longrightarrow> elo_of rt (Str s) = Inr (Fin (of_nat (digits_value s)))"
  proof
    assume a: "all_digits s \<and> length s \<le> 15"
    then have "s \<noteq> []" by (simp add: all_digits_def)
    with a digits_numeric [of s] show "elo_of rt (Str s) = Inr (Fin (of_nat (digits_value s)))"
      by (simp add: elo_of_def or_else_def string_to_number_def)
  qed
  have 4: "certainly_not_numeric s \<longrightarrow> elo_of rt (Str s) = Inr NaN"
    using not_numeric_nonempty [of s] by (simp add: elo_of_def or_else_def string_to_number_def)
  have 5: "env_or (QUIZ_MODE e) ''static'' = ''llm'' \<and> elo_of rt q = Inr elo \<longrightarrow>
        snd (quiz rt net e q rnd) = [quiz_request rt e elo]"
    by (auto simp: quiz_def Let_def split: option.splits)
  from 1 2 3 4 5 show ?thesis by blast
qed

lemma quiz_prompt_1500:
  "quiz_prompt sample_rt (Fin 1500) =
     ''Create a concise trading quiz JSON tuned for ELO 1500.'' @ [CHR 0x0A] @
     ''Fields: {type:'' @ [CHR 0x27] @ ''mcq'' @ [CHR 0x27] @ ''|'' @ [CHR 0x27] @ ''image_mcq'' @
     [CHR 0x27] @ '', img?, q, opts:[A,B,C], a(0-2)}. Keep it short.''"
  by (simp add: quiz_prompt_def number_to_string_def decimal.simps digit_chars_def)

theorem elo_default_witness:
  "elo_of sample_rt Undefined = Inr (Fin 1200)
   \<and> elo_of sample_rt (Str []) = Inr (Fin 1200)
   \<and> elo_of sample_rt (Str ''1500'') = Inr (Fin 1500)
   \<and> elo_of sample_rt (Str ''high'') = Inr NaN
   \<and> snd (quiz sample_rt net_ok llm_env (Str ''1500'') 0) = [quiz_request sample_rt llm_env (Fin 1500)]"
proof -
  have d: "all_digits ''1500'' \<and> length ''1500'' \<le> 15" "digits_value ''1500'' = 1500"
    by (simp_all add: all_digits_def digit_chars_def digits_value_def)
  have n: "certainly_not_numeric ''high''"
    by (simp add: certainly_not_numeric_def numeric_literal_chars_def)
  have l: "env_or (QUIZ_MODE llm_env) ''static'' = ''llm''" by (simp add: llm_env_def env_or_def)
  note t = elo_default [of Undefined sample_rt "''1500''" llm_env "Fin 1200" net_ok 0]
    elo_default [of "Str []" sample_rt "''high''" llm_env "Fin 1200" net_ok 0]
  note u = elo_default [of "Str ''1500''" sample_rt "''1500''" llm_env "Fin 1500" net_ok 0]
  from t u d n l show ?thesis by simp
qed

text \<open>
  C9 as stated fails: for \<open>elo=high\<close> the rating is \<open>NaN\<close>, not 1200, and the generation
  prompt reads \<open>ELO NaN\<close>.
\<close>

theorem elo_non_numeric_counterexample:
  "elo_of sample_rt (Str ''high'') = Inr NaN
   \<and> snd (quiz sample_rt net_ok llm_env (Str ''high'') 0) = [quiz_request sample_rt llm_env NaN]
   \<and> take 53 (quiz_prompt sample_rt NaN) = ''Create a concise trading quiz JSON tuned for ELO NaN.''"
  by (simp add: elo_of_def or_else_def string_to_number_def certainly_not_numeric_def
      numeric_literal_chars_def quiz_def Let_def llm_env_def env_or_def quiz_prompt_def
      number_to_string_def split: option.splits)

text \<open>In generative mode the answer is decided by the reply of the generation call.\<close>

lemma quiz_generated:
  assumes "env_or (QUIZ_MODE e) ''static'' = ''llm''" and "elo_of rt q = Inr elo"
  shows "fst (quiz rt net e q rnd) =
      (case generated rt (net (quiz_request rt e elo)) of Some r \<Rightarrow> r | None \<Rightarrow> static_quiz rnd)"
  using assms by (simp add: quiz_def Let_def split: option.splits)

text \<open>
  A transport failure of the generation call, or a body that cannot be read as JSON,
  reaches the catch of the route.
\<close>

lemma quiz_transport_failure:
  assumes "env_or (QUIZ_MODE e) ''static'' = ''llm''" and "elo_of rt q = Inr elo"
    and "net (quiz_request rt e elo) = Inl err"
  shows "fst (quiz rt net e q rnd) = server_error err"
  using assms(3) by (simp add: quiz_generated [OF assms(1,2)] generated_def)

lemma quiz_unreadable_body:
  assumes "env_or (QUIZ_MODE e) ''static'' = ''llm''" and "elo_of rt q = Inr elo"
    and "net (quiz_request rt e elo) = Inr r" and "ok r" and "json rt r = Inl err"
  shows "fst (quiz rt net e q rnd) = server_error err"
  using assms(3-5) by (simp add: quiz_generated [OF assms(1,2)] generated_def)

text \<open>
  C1, as amended. In generative mode: when the generation call resolves with a
  non-success status, or with a success status and a body whose reply text cannot be
  turned into text or parsed as JSON, the answer is the one of static mode. When the
  reply text parses as JSON, the parsed value is the answer, with status 200 and no
  check of its shape.
\<close>

theorem quiz_llm_outcomes:
  assumes "env_or (QUIZ_MODE e) ''static'' = ''llm''" and "elo_of rt q = Inr elo"
  shows "(\<forall>r. net (quiz_request rt e elo) = Inr r \<and> \<not> ok r \<longrightarrow>
            fst (quiz rt net e q rnd) = static_quiz rnd)
       \<and> (\<forall>r data. net (quiz_request rt e elo) = Inr r \<and> ok r \<and> json rt r = Inr data \<and> \<not> nullish data \<and>
            (\<forall>t. String rt (or_else (first_content data) (Str ''{}'')) = Inr t \<longrightarrow> (\<exists>err. JSON_parse rt t = Inl err)) \<longrightarrow>
            fst (quiz rt net e q rnd) = static_quiz rnd)
       \<and> (\<forall>r data t item. net (quiz_request rt e elo) = Inr r \<and> ok r \<and> json rt r = Inr data \<and> \<not> nullish data \<and>
            String rt (or_else (first_content data) (Str ''{}'')) = Inr t \<and> JSON_parse rt t = Inr item \<longrightarrow>
            fst (quiz rt net e q rnd) = \<lparr>status = 200, body = item\<rparr>)"
proof -
  have 1: "\<forall>r. net (quiz_request rt e elo) = Inr r \<and> \<not> ok r \<longrightarrow>
            fst (quiz rt net e q rnd) = static_quiz rnd"
    by (simp add: quiz_generated [OF assms] generated_def)
  have 2: "\<forall>r data. net (quiz_request rt e elo) = Inr r \<and> ok r \<and> json rt r = Inr data \<and> \<not> nullish data \<and>
            (\<forall>t. String rt (or_else (first_content data) (Str ''{}'')) = Inr t \<longrightarrow> (\<exists>err. JSON_parse rt t = Inl err)) \<longrightarrow>
            fst (quiz rt net e q rnd) = static_quiz rnd"
    by (auto simp: quiz_generated [OF assms] generated_def get_prop_opt first_content_def Let_def
        split: sum.splits)
  have 3: "\<forall>r data t item. net (quiz_request rt e elo) = Inr r \<and> ok r \<and> json rt r = Inr data \<and> \<not> nullish data \<and>
            String rt (or_else (first_content data) (Str ''{}'')) = Inr t \<and> JSON_parse rt t = Inr item \<longrightarrow>
            fst (quiz rt net e q rnd) = \<lparr>status = 200, body = item\<rparr>"
    by (auto simp: quiz_generated [OF assms] generated_def get_prop_opt first_content_def Let_def
        split: sum.splits)
  from 1 2 3 show ?thesis by blast
qed

lemmas quiz_eval = sample_runtime_def parse_table_def quiz_rt_def completion_net_def routes_def
  quiz_request_def completions_url_def json_def garbage_doc_def garbage_data_def no_choice_doc_def
  no_choice_data_def bad_item_text_def bad_item_doc_def bad_item_data_def json_string_def
  first_content_def or_else_def nullish_def

theorem quiz_llm_outcomes_witness:
  "fst (quiz quiz_rt (completion_net (Inr (Response False (Inr ''overloaded'')))) llm_env Undefined (1 / 2))
     = static_quiz (1 / 2)
   \<and> fst (quiz quiz_rt (completion_net (Inr (Response True (Inr garbage_doc)))) llm_env Undefined (1 / 2))
     = static_quiz (1 / 2)
   \<and> fst (quiz quiz_rt (completion_net (Inr (Response True (Inr bad_item_doc)))) llm_env Undefined (1 / 2))
     = \<lparr>status = 200, body = bad_item\<rparr>"
proof -
  have l: "env_or (QUIZ_MODE llm_env) ''static'' = ''llm''" by (simp add: llm_env_def env_or_def)
  have e: "elo_of quiz_rt Undefined = Inr (Fin 1200)" by (simp add: elo_of_def or_else_def)
  have a: "fst (quiz quiz_rt (completion_net (Inr (Response False (Inr ''overloaded'')))) llm_env Undefined (1 / 2))
     = static_quiz (1 / 2)"
    using quiz_llm_outcomes [OF l e, of "completion_net (Inr (Response False (Inr ''overloaded'')))" "1 / 2"]
    by (simp add: completion_net_def routes_def quiz_request_def completions_url_def)
  have b: "fst (quiz quiz_rt (completion_net (Inr (Response True (Inr garbage_doc)))) llm_env Undefined (1 / 2))
     = static_quiz (1 / 2)"
    using quiz_llm_outcomes [OF l e, of "completion_net (Inr (Response True (Inr garbage_doc)))" "1 / 2",
        THEN conjunct2, THEN conjunct1, rule_format, of "Response True (Inr garbage_doc)" garbage_data]
    by (simp add: quiz_eval)
  have c: "fst (quiz quiz_rt (completion_net (Inr (Response True (Inr bad_item_doc)))) llm_env Undefined (1 / 2))
     = \<lparr>status = 200, body = bad_item\<rparr>"
    using quiz_llm_outcomes [OF l e, of "completion_net (Inr (Response True (Inr bad_item_doc)))" "1 / 2",
        THEN conjunct2, THEN conjunct2, rule_format,
        of "Response True (Inr bad_item_doc)" bad_item_data bad_item_text bad_item]
    by (simp add: quiz_eval)
  from a b c show ?thesis by blast
qed

text \<open>
  C1 as stated fails: a transport failure is answered with status 500; an item with the
  answer index 7 is returned as it is, and it is no item of the bank; a reply with no
  choice is answered with the empty object.
\<close>

theorem quiz_llm_counterexample:
  "fst (quiz quiz_rt (completion_net (Inl ''FetchError: socket hang up'')) llm_env Undefined (1 / 2))
     = \<lparr>status = 500, body = Obj [(''error'', Str ''Server error''), (''detail'', Str ''FetchError: socket hang up'')]\<rparr>
   \<and> fst (quiz quiz_rt (completion_net (Inr (Response True (Inr bad_item_doc)))) llm_env Undefined (1 / 2))
     = \<lparr>status = 200, body = Obj [(''q'', Str ''Pick one''), (''opts'', Arr [Str ''A'', Str ''B'', Str ''C'']), (''a'', Num (Fin 7))]\<rparr>
   \<and> Obj [(''q'', Str ''Pick one''), (''opts'', Arr [Str ''A'', Str ''B'', Str ''C'']), (''a'', Num (Fin 7))] \<notin> set bank
   \<and> fst (quiz quiz_rt (completion_net (Inr (Response True (Inr no_choice_doc)))) llm_env Undefined (1 / 2))
     = \<lparr>status = 200, body = Obj []\<rparr>"
  by (simp add: quiz_def elo_of_def Let_def llm_env_def env_or_def generated_def server_error_def
      bad_item_def bank_def quiz_eval)

end
